theory Spec2Isabelle
  imports Main "HOL-Library.AList" "HOL-Library.Log_Nat"
begin

section \<open>Knowledge store (knowledge/store.ts)\<close>

text \<open>
  The store keeps one current document per path in a \<open>Map\<close>. Version numbers and
  timestamps are JavaScript numbers; they are modelled as \<open>int\<close>. \<open>Date.now()\<close> and the
  SHA-256 digest are inputs of the model (\<open>now\<close>, \<open>sha256\<close>). The event stream is the
  list of events emitted so far, oldest first; subscriber callbacks are identified by a
  number and every call of one is recorded in \<open>notifications\<close>; callbacks are taken
  to return normally.
\<close>

record VersionedDocument =
  doc_path :: string
  doc_content :: string
  doc_version :: int
  doc_createdAt :: int
  doc_updatedAt :: int
  doc_createdBy :: string
  doc_updatedBy :: string
  doc_contentHash :: string

datatype error_code = INVALID_PATH | CONTENT_TOO_LARGE | VERSION_CONFLICT

record WriteError =
  err_code :: error_code
  err_currentVersion :: "int option"
  err_expectedVersion :: "int option"

record WriteResult =
  wr_success :: bool
  wr_path :: string
  wr_version :: int
  wr_previousVersion :: "int option"
  wr_error :: "WriteError option"

datatype knowledge_event =
    KNOWLEDGE_CONFLICT string int int string
  | KNOWLEDGE_WRITTEN string int "int option" string string
  | KNOWLEDGE_UPDATED string int "int option" string string
  | KNOWLEDGE_DELETED string string

record KnowledgeStore =
  documents :: "string \<rightharpoonup> VersionedDocument"
  subscriptions :: "(string \<times> nat list) list"
  currentAgent :: string
  maxDocumentSize :: int
  eventStream :: "knowledge_event list"
  notifications :: "(nat \<times> VersionedDocument) list"

definition newKnowledgeStore :: "int option \<Rightarrow> KnowledgeStore" where
  "newKnowledgeStore maxSize =
     \<lparr> documents = Map.empty, subscriptions = [], currentAgent = ''zeus'',
       maxDocumentSize = (case maxSize of None \<Rightarrow> 10 * 1024 * 1024 | Some m \<Rightarrow> m),
       eventStream = [], notifications = [] \<rparr>"

definition setCurrentAgent :: "KnowledgeStore \<Rightarrow> string \<Rightarrow> KnowledgeStore" where
  "setCurrentAgent s agent = s\<lparr>currentAgent := agent\<rparr>"

text \<open>
  The character class \<open>[a-zA-Z0-9\/_-]\<close> of the path pattern, by character code:
  a-z are 97-122, A-Z are 65-90, 0-9 are 48-57.
\<close>

definition pathChar :: "char \<Rightarrow> bool" where
  "pathChar c \<longleftrightarrow>
     (let n = (of_char c :: nat) in
        (97 \<le> n \<and> n \<le> 122) \<or> (65 \<le> n \<and> n \<le> 90) \<or> (48 \<le> n \<and> n \<le> 57) \<or>
        c = CHR ''/'' \<or> c = CHR ''_'' \<or> c = CHR ''-'')"

text \<open>\<open>/^\/[a-zA-Z0-9\/_-]+$/.test(path)\<close>: a slash, then one or more class characters.\<close>

fun isValidPath :: "string \<Rightarrow> bool" where
  "isValidPath [] = False"
| "isValidPath (c # cs) = (c = CHR ''/'' \<and> cs \<noteq> [] \<and> list_all pathChar cs)"

text \<open>\<open>path.split('/')\<close>: the pieces between slashes, empty pieces included.\<close>

fun split_slash :: "string \<Rightarrow> string \<Rightarrow> string list" where
  "split_slash acc [] = [rev acc]"
| "split_slash acc (c # cs) =
     (if c = CHR ''/'' then rev acc # split_slash [] cs else split_slash (c # acc) cs)"

text \<open>
  The structural check in the words of the specification, for comparison with
  \<open>isValidPath\<close>: a hierarchical key is a slash followed by segments separated by
  slashes, and every segment is non-empty.
\<close>

definition spec_nonEmptySegments :: "string \<Rightarrow> bool" where
  "spec_nonEmptySegments p =
     (case p of
        [] \<Rightarrow> False
      | c # cs \<Rightarrow> c = CHR ''/'' \<and> list_all (\<lambda>seg. seg \<noteq> []) (split_slash [] cs))"

definition validCategories :: "string list" where
  "validCategories =
     [''requirements'', ''research'', ''architecture'', ''plan'', ''progress'',
      ''verification'', ''deployment'', ''error'', ''checkpoint'', ''metadata'']"

definition getCategoryFromPath :: "string \<Rightarrow> string" where
  "getCategoryFromPath p =
     (case filter (\<lambda>seg. seg \<noteq> []) (split_slash [] p) of
        [] \<Rightarrow> ''metadata''
      | category # _ \<Rightarrow> if category \<in> set validCategories then category else ''metadata'')"

definition startsWith :: "string \<Rightarrow> string \<Rightarrow> bool" where
  "startsWith p pre \<longleftrightarrow> take (length pre) p = pre"

text \<open>
  \<open>notifySubscribers\<close>: first the callbacks registered on the exact path, then, in the
  order of registration, those registered on a proper prefix of it.
\<close>

definition notifySubscribers :: "KnowledgeStore \<Rightarrow> string \<Rightarrow> VersionedDocument \<Rightarrow> KnowledgeStore" where
  "notifySubscribers s p doc =
     (let exact = (case map_of (subscriptions s) p of None \<Rightarrow> [] | Some cbs \<Rightarrow> cbs);
          pre = concat (map snd (filter (\<lambda>(subPath, cbs). startsWith p subPath \<and> subPath \<noteq> p)
                                        (subscriptions s)))
      in s\<lparr>notifications := notifications s @ map (\<lambda>cb. (cb, doc)) (exact @ pre)\<rparr>)"

definition currentVersionAt :: "KnowledgeStore \<Rightarrow> string \<Rightarrow> int" where
  "currentVersionAt s p = (case documents s p of None \<Rightarrow> 0 | Some d \<Rightarrow> doc_version d)"

text \<open>
  \<open>write(path, content, expectedVersion?)\<close>, named \<open>writeDoc\<close> here. The checks run in
  the order of the source: path, size, version. \<open>content.length\<close> is the number of
  characters of the string.
\<close>

definition writeDoc ::
  "(string \<Rightarrow> string) \<Rightarrow> int \<Rightarrow> KnowledgeStore \<Rightarrow> string \<Rightarrow> string \<Rightarrow> int option
     \<Rightarrow> WriteResult \<times> KnowledgeStore" where
  "writeDoc sha256 now s p c expected =
     (if \<not> isValidPath p then
        (\<lparr> wr_success = False, wr_path = p, wr_version = -1, wr_previousVersion = None,
           wr_error = Some \<lparr> err_code = INVALID_PATH, err_currentVersion = None,
                             err_expectedVersion = None \<rparr> \<rparr>, s)
      else if int (length c) > maxDocumentSize s then
        (\<lparr> wr_success = False, wr_path = p, wr_version = -1, wr_previousVersion = None,
           wr_error = Some \<lparr> err_code = CONTENT_TOO_LARGE, err_currentVersion = None,
                             err_expectedVersion = None \<rparr> \<rparr>, s)
      else
        let existing = documents s p;
            currentVersion = (case existing of None \<Rightarrow> 0 | Some d \<Rightarrow> doc_version d)
        in if expected \<noteq> None \<and> currentVersion \<noteq> the expected then
             (\<lparr> wr_success = False, wr_path = p, wr_version = currentVersion,
                wr_previousVersion = None,
                wr_error = Some \<lparr> err_code = VERSION_CONFLICT,
                                  err_currentVersion = Some currentVersion,
                                  err_expectedVersion = expected \<rparr> \<rparr>,
              s\<lparr>eventStream := eventStream s @
                   [KNOWLEDGE_CONFLICT p currentVersion (the expected) (currentAgent s)]\<rparr>)
           else
             let newVersion = currentVersion + 1;
                 doc = \<lparr> doc_path = p, doc_content = c, doc_version = newVersion,
                         doc_createdAt = (case existing of None \<Rightarrow> now | Some d \<Rightarrow> doc_createdAt d),
                         doc_updatedAt = now,
                         doc_createdBy = (case existing of None \<Rightarrow> currentAgent s
                                          | Some d \<Rightarrow> doc_createdBy d),
                         doc_updatedBy = currentAgent s,
                         doc_contentHash = sha256 c \<rparr>;
                 previous = map_option doc_version existing;
                 ev = (case existing of
                         None \<Rightarrow> KNOWLEDGE_WRITTEN p newVersion previous (currentAgent s)
                                   (getCategoryFromPath p)
                       | Some _ \<Rightarrow> KNOWLEDGE_UPDATED p newVersion previous (currentAgent s)
                                   (getCategoryFromPath p));
                 s1 = s\<lparr>documents := (documents s)(p \<mapsto> doc),
                        eventStream := eventStream s @ [ev]\<rparr>
             in (\<lparr> wr_success = True, wr_path = p, wr_version = newVersion,
                    wr_previousVersion = previous, wr_error = None \<rparr>,
                 notifySubscribers s1 p doc))"

text \<open>\<open>read(path, options?)\<close>: no history is kept, another version than the current is \<open>null\<close>.\<close>

definition read :: "KnowledgeStore \<Rightarrow> string \<Rightarrow> int option \<Rightarrow> VersionedDocument option" where
  "read s p wanted =
     (case documents s p of
        None \<Rightarrow> None
      | Some d \<Rightarrow> (case wanted of
                    None \<Rightarrow> Some d
                  | Some v \<Rightarrow> if doc_version d \<noteq> v then None else Some d))"

definition getVersion :: "KnowledgeStore \<Rightarrow> string \<Rightarrow> int option" where
  "getVersion s p = map_option doc_version (documents s p)"

definition delete :: "KnowledgeStore \<Rightarrow> string \<Rightarrow> bool \<times> KnowledgeStore" where
  "delete s p =
     (case documents s p of
        None \<Rightarrow> (False, s)
      | Some _ \<Rightarrow> (True, s\<lparr>documents := (documents s)(p := None),
                          eventStream := eventStream s @ [KNOWLEDGE_DELETED p (currentAgent s)]\<rparr>))"




text \<open>\<open>subscribe(path, callback)\<close> adds the callback to the set kept for the path.\<close>

definition subscribe :: "KnowledgeStore \<Rightarrow> string \<Rightarrow> nat \<Rightarrow> KnowledgeStore" where
  "subscribe s p cb =
     (let cbs = (case map_of (subscriptions s) p of None \<Rightarrow> [] | Some xs \<Rightarrow> xs)
      in s\<lparr>subscriptions := AList.update p (if cb \<in> set cbs then cbs else cbs @ [cb])
                                (subscriptions s)\<rparr>)"








section \<open>Circuit breaker (utils/circuit_breaker.ts)\<close>

text \<open>
  The breaker keeps its status in memory and mirrors it under three Redis keys. Redis is
  outside the program: it is a store of its own, and each call of the client returns or
  throws. The keys are modelled by their decoded values: \<open>None\<close> is a key that is absent
  or holds the empty string (both are falsy when read back). Times are milliseconds.
\<close>

datatype CircuitState = CLOSED | OPEN | HALF_OPEN

record RedisKeys =
  key_failures :: "int option"
  key_lastFailure :: "int option"
  key_state :: "CircuitState option"

record CircuitBreaker =
  threshold :: int
  resetTimeout :: int
  state :: CircuitState
  failures :: int
  lastFailure :: "int option"




text \<open>
  \<open>loadStatus\<close>: the three \<open>redis.get\<close> calls come first and the assignments after them,
  all inside one \<open>try\<close>: when a read throws (\<open>gets\<close> is false) memory is left as it was,
  and when all three return (\<open>gets\<close> is true) every key that holds a value replaces the
  value in memory.
\<close>

definition loadStatus :: "CircuitBreaker \<Rightarrow> bool \<Rightarrow> RedisKeys \<Rightarrow> CircuitBreaker" where
  "loadStatus cb gets r =
     (if gets then
        cb\<lparr>failures := (case key_failures r of None \<Rightarrow> failures cb | Some f \<Rightarrow> f),
           lastFailure := (case key_lastFailure r of None \<Rightarrow> lastFailure cb | Some l \<Rightarrow> Some l),
           state := (case key_state r of None \<Rightarrow> state cb | Some st \<Rightarrow> st)\<rparr>
      else cb)"




text \<open>\<open>getStatus\<close> loads before it reports; the breaker it leaves in memory is its report.\<close>

definition getStatus :: "CircuitBreaker \<Rightarrow> bool \<Rightarrow> RedisKeys \<Rightarrow> CircuitBreaker" where
  "getStatus cb gets r = loadStatus cb gets r"





section \<open>Agent tool loop (agents/base-agent.ts)\<close>

text \<open>
  The language model and the tools are outside the program. The \<open>k\<close>-th call of
  \<open>client.messages.create\<close> yields \<open>client k\<close>: a response, or \<open>Inl\<close> the message of
  the error thrown inside the \<open>try\<close> block of \<open>callLLM\<close>. The \<open>k\<close>-th call of
  \<open>handleToolCall\<close> yields \<open>handler k name input\<close>. The agent counts both kinds of call
  (\<open>apiCalls\<close>, \<open>toolCalls\<close>). Tool data and tool errors are kept as the text that
  \<open>JSON.stringify\<close> gives for them.
\<close>

datatype ContentBlock =
    TextBlock "string option"
  | ToolUseBlock string string string
  | ToolResultBlock string "string option" bool

datatype stop_reason = end_turn | tool_use | max_tokens | stop_sequence

record LLMResponse =
  resp_content :: "ContentBlock list"
  resp_stopReason :: stop_reason
  resp_inputTokens :: int
  resp_outputTokens :: int

datatype message_role = User | Assistant

datatype message_content = Plain string | Blocks "ContentBlock list"

record Message =
  msg_role :: message_role
  msg_content :: message_content

datatype agent_error_code = AGENT_BUDGET_EXCEEDED | LLM_API_ERROR | AGENT_LOOP_DETECTED

record AgentError =
  ae_code :: agent_error_code
  ae_message :: string
  ae_recoverable :: bool

record ToolResult =
  tr_success :: bool
  tr_data :: "string option"
  tr_error :: "string option"

record Agent =
  callsMade :: int
  maxCalls :: int
  tokensUsed :: int
  iterationsUsed :: int
  apiCalls :: nat
  toolCalls :: nat

definition createError :: "agent_error_code \<Rightarrow> string \<Rightarrow> AgentError" where
  "createError c m = \<lparr> ae_code = c, ae_message = m, ae_recoverable = True \<rparr>"

text \<open>
  \<open>callLLM\<close>: the budget check comes before the call and makes none when it fails. The
  message of the budget error is given without the interpolated limit.
\<close>

definition callLLM :: "(nat \<Rightarrow> string + LLMResponse) \<Rightarrow> Agent \<Rightarrow> (AgentError + LLMResponse) \<times> Agent" where
  "callLLM client ag =
     (if callsMade ag \<ge> maxCalls ag then
        (Inl (createError AGENT_BUDGET_EXCEEDED ''Max calls exceeded''), ag)
      else
        case client (apiCalls ag) of
          Inl m \<Rightarrow> (Inl (createError LLM_API_ERROR m), ag\<lparr>apiCalls := Suc (apiCalls ag)\<rparr>)
        | Inr response \<Rightarrow>
            (Inr response,
             ag\<lparr>apiCalls := Suc (apiCalls ag), callsMade := callsMade ag + 1,
                tokensUsed := tokensUsed ag + (resp_inputTokens response + resp_outputTokens response)\<rparr>))"

text \<open>\<open>executeTool\<close>: an exception of the handler becomes a failed tool result.\<close>

definition executeTool ::
  "(nat \<Rightarrow> string \<Rightarrow> string \<Rightarrow> string + ToolResult) \<Rightarrow> Agent \<Rightarrow> string \<Rightarrow> string \<Rightarrow> ToolResult \<times> Agent" where
  "executeTool handler ag name input =
     ((case handler (toolCalls ag) name input of
         Inl m \<Rightarrow> \<lparr> tr_success = False, tr_data = None, tr_error = Some m \<rparr>
       | Inr result \<Rightarrow> result),
      ag\<lparr>toolCalls := Suc (toolCalls ag)\<rparr>)"

text \<open>
  The \<open>for\<close> loop over the blocks of one response: the assistant content, the tool
  results and the text of this response. A block that is neither text nor a tool call
  is skipped.
\<close>

fun processBlocks ::
  "(nat \<Rightarrow> string \<Rightarrow> string \<Rightarrow> string + ToolResult) \<Rightarrow> Agent \<Rightarrow> ContentBlock list
     \<Rightarrow> (ContentBlock list \<times> ContentBlock list \<times> string) \<times> Agent" where
  "processBlocks handler ag [] = (([], [], []), ag)"
| "processBlocks handler ag (TextBlock t # bs) =
     (let ((assistantContent, toolResults, textResponse), ag') = processBlocks handler ag bs
      in ((TextBlock t # assistantContent, toolResults,
           (case t of None \<Rightarrow> [] | Some x \<Rightarrow> x) @ textResponse), ag'))"
| "processBlocks handler ag (ToolUseBlock i name input # bs) =
     (let (result, ag1) = executeTool handler ag name input;
          ((assistantContent, toolResults, textResponse), ag') = processBlocks handler ag1 bs
      in ((ToolUseBlock i name input # assistantContent,
           ToolResultBlock i (case tr_data result of Some d \<Rightarrow> Some d | None \<Rightarrow> tr_error result)
             (\<not> tr_success result) # toolResults,
           textResponse), ag'))"
| "processBlocks handler ag (ToolResultBlock i c e # bs) = processBlocks handler ag bs"

definition maxIterations :: nat where
  "maxIterations = 50"

text \<open>The \<open>while (iterations < maxIterations)\<close> loop of \<open>runAgentLoop\<close>, from a given count.\<close>

function runLoop ::
  "(nat \<Rightarrow> string + LLMResponse) \<Rightarrow> (nat \<Rightarrow> string \<Rightarrow> string \<Rightarrow> string + ToolResult) \<Rightarrow> nat \<Rightarrow> Agent
     \<Rightarrow> Message list \<Rightarrow> (AgentError + Message list \<times> string) \<times> Agent" where
  "runLoop client handler iterations ag messages =
     (if iterations < maxIterations then
        (case callLLM client (ag\<lparr>iterationsUsed := int (Suc iterations)\<rparr>) of
           (Inl e, ag1) \<Rightarrow> (Inl e, ag1)
         | (Inr response, ag1) \<Rightarrow>
             (case processBlocks handler ag1 (resp_content response) of
                ((assistantContent, toolResults, textResponse), ag2) \<Rightarrow>
                  if toolResults \<noteq> [] then
                    runLoop client handler (Suc iterations) ag2
                      (messages @ [\<lparr> msg_role = Assistant, msg_content = Blocks assistantContent \<rparr>,
                                   \<lparr> msg_role = User, msg_content = Blocks toolResults \<rparr>])
                  else if resp_stopReason response = end_turn then
                    (Inr (messages @ [\<lparr> msg_role = Assistant,
                                        msg_content = Blocks assistantContent \<rparr>], textResponse), ag2)
                  else
                    runLoop client handler (Suc iterations) ag2
                      (messages @ [\<lparr> msg_role = Assistant, msg_content = Blocks assistantContent \<rparr>])))
      else (Inl (createError AGENT_LOOP_DETECTED ''Max iterations (50) exceeded''), ag))"
  by pat_completeness auto
termination
  by (relation "measure (\<lambda>(client, handler, iterations, ag, messages). maxIterations - iterations)") auto

definition runAgentLoop ::
  "(nat \<Rightarrow> string + LLMResponse) \<Rightarrow> (nat \<Rightarrow> string \<Rightarrow> string \<Rightarrow> string + ToolResult) \<Rightarrow> Agent
     \<Rightarrow> Message list \<Rightarrow> (AgentError + Message list \<times> string) \<times> Agent" where
  "runAgentLoop client handler ag initialMessages = runLoop client handler 0 ag initialMessages"

text \<open>
  A response ends the loop when it asks for no tool and stops with \<open>end_turn\<close>; its text
  is the concatenation of its text blocks.
\<close>

fun isToolUse :: "ContentBlock \<Rightarrow> bool" where
  "isToolUse (ToolUseBlock _ _ _) = True"
| "isToolUse _ = False"

definition endsLoop :: "LLMResponse \<Rightarrow> bool" where
  "endsLoop r \<longleftrightarrow> \<not> list_ex isToolUse (resp_content r) \<and> resp_stopReason r = end_turn"

fun blockText :: "ContentBlock \<Rightarrow> string" where
  "blockText (TextBlock (Some x)) = x"
| "blockText _ = []"

definition responseText :: "LLMResponse \<Rightarrow> string" where
  "responseText r = concat (map blockText (resp_content r))"


section \<open>n8n callback route (app/api/v1/callbacks/n8n/route.ts)\<close>

text \<open>
  The handler reads the environment, the request and the database, and writes to four
  places: the \<open>request_tasks\<close> table, the \<open>provider_metadata\<close> table, the event logger
  and the orchestrator (\<open>resumeRequest\<close>). All four are fields of \<open>Backend\<close>. A payload
  field that is absent is the empty string here (both are falsy); \<open>result\<close> is kept as
  JSON text. The HMAC and \<open>JSON.parse\<close> are inputs of the model; \<open>parse\<close> gives \<open>None\<close>
  where \<open>JSON.parse\<close> throws. Database, logger and orchestrator calls are taken to
  succeed.
\<close>

record N8nCallbackPayload =
  pl_requestId :: string
  pl_taskId :: string
  pl_executionId :: string
  pl_workflowId :: "string option"
  pl_status :: string
  pl_result :: "string option"
  pl_output_url :: "string option"
  pl_error_code :: string
  pl_error_message :: string

record RequestTask =
  task_request_id :: string
  task_status :: string
  task_name :: string
  task_assigned_to :: string
  task_output_data :: "string option"
  task_output_url :: "string option"
  task_error_message :: "string option"
  task_completed_at :: "int option"

record ProviderMetadata =
  pm_request_id :: string
  pm_task_id :: string
  pm_provider_name :: string
  pm_provider_job_id :: string
  pm_workflow_id :: "string option"
  pm_completed_at :: int
  pm_result :: "string option"

datatype logged_event =
    TaskCompleted string string string string string
  | TaskFailed string string string string string string
  | ProviderCallback string string string string string "string option"

record Backend =
  request_tasks :: "string \<rightharpoonup> RequestTask"
  provider_metadata :: "ProviderMetadata list"
  eventLogger :: "logged_event list"
  resumedRequests :: "string list"

record HttpResponse =
  http_status :: nat
  body_success :: bool
  body_text :: string
  body_currentStatus :: "string option"

definition jsonResponse :: "nat \<Rightarrow> bool \<Rightarrow> string \<Rightarrow> HttpResponse" where
  "jsonResponse st ok msg =
     \<lparr> http_status = st, body_success = ok, body_text = msg, body_currentStatus = None \<rparr>"

text \<open>
  \<open>select ... eq('id', taskId).eq('request_id', requestId).single()\<close>: the row with this
  id, when it belongs to this request.
\<close>

definition selectTask :: "Backend \<Rightarrow> string \<Rightarrow> string \<Rightarrow> RequestTask option" where
  "selectTask db taskId requestId =
     (case request_tasks db taskId of
        None \<Rightarrow> None
      | Some t \<Rightarrow> if task_request_id t = requestId then Some t else None)"

definition POST ::
  "(string \<Rightarrow> string \<Rightarrow> string) \<Rightarrow> (string \<Rightarrow> N8nCallbackPayload option) \<Rightarrow> string option \<Rightarrow> int
     \<Rightarrow> Backend \<Rightarrow> string option \<Rightarrow> string \<Rightarrow> HttpResponse \<times> Backend" where
  "POST hmacSha256Hex parse webhookSecret now db signature rawBody =
     (if webhookSecret = None \<or> webhookSecret = Some [] then
        (jsonResponse 500 False ''Webhook authentication not configured'', db)
      else if signature = None \<or> signature = Some [] then
        (jsonResponse 401 False ''Missing webhook signature'', db)
      else
        let expectedSignature = hmacSha256Hex (the webhookSecret) rawBody in
        if length (the signature) \<noteq> length expectedSignature then
          (jsonResponse 500 False ''Input buffers must have the same byte length'', db)
        else if the signature \<noteq> expectedSignature then
          (jsonResponse 401 False ''Invalid webhook signature'', db)
        else
          case parse rawBody of
            None \<Rightarrow> (jsonResponse 500 False ''Unexpected token in JSON'', db)
          | Some payload \<Rightarrow>
              if pl_requestId payload = [] \<or> pl_taskId payload = [] \<or> pl_status payload = [] then
                (jsonResponse 400 False ''Missing required fields: requestId, taskId, status'', db)
              else
                (case selectTask db (pl_taskId payload) (pl_requestId payload) of
                  None \<Rightarrow> (jsonResponse 404 False ''Task not found or request mismatch'', db)
                | Some task \<Rightarrow>
                    if task_status task \<noteq> ''in_progress'' then
                      (\<lparr> http_status = 200, body_success = True,
                         body_text = ''Task already completed or cancelled'',
                         body_currentStatus = Some (task_status task) \<rparr>, db)
                    else if pl_status payload = ''success'' then
                      (jsonResponse 200 True ''Task completed successfully'',
                       db\<lparr>provider_metadata :=
                            (if pl_executionId payload \<noteq> [] then
                               provider_metadata db @
                                 [\<lparr> pm_request_id = pl_requestId payload,
                                    pm_task_id = pl_taskId payload,
                                    pm_provider_name = ''n8n'',
                                    pm_provider_job_id = pl_executionId payload,
                                    pm_workflow_id = pl_workflowId payload,
                                    pm_completed_at = now,
                                    pm_result = pl_result payload \<rparr>]
                             else provider_metadata db),
                          request_tasks := (request_tasks db)(pl_taskId payload \<mapsto>
                            task\<lparr>task_status := ''completed'',
                                 task_output_data :=
                                   Some (case pl_result payload of None \<Rightarrow> ''{}'' | Some r \<Rightarrow> r),
                                 task_output_url := pl_output_url payload,
                                 task_completed_at := Some now\<rparr>),
                          eventLogger := eventLogger db @
                            [TaskCompleted (pl_requestId payload) (pl_taskId payload)
                               (task_name task) (task_assigned_to task)
                               (case pl_result payload of None \<Rightarrow> ''{}'' | Some r \<Rightarrow> r),
                             ProviderCallback (pl_requestId payload) (pl_taskId payload) ''n8n''
                               (if pl_executionId payload = [] then ''unknown''
                                else pl_executionId payload)
                               ''completed'' (pl_output_url payload)],
                          resumedRequests := resumedRequests db @ [pl_requestId payload]\<rparr>)
                    else
                      let errorMessage = (if pl_error_message payload = [] then ''n8n workflow failed''
                                          else pl_error_message payload);
                          errorCode = (if pl_error_code payload = [] then ''N8N_WORKFLOW_ERROR''
                                       else pl_error_code payload)
                      in (jsonResponse 200 True ''Task failure recorded'',
                          db\<lparr>request_tasks := (request_tasks db)(pl_taskId payload \<mapsto>
                               task\<lparr>task_status := ''failed'',
                                    task_error_message := Some (errorCode @ '': '' @ errorMessage),
                                    task_completed_at := Some now\<rparr>),
                             eventLogger := eventLogger db @
                               [TaskFailed (pl_requestId payload) (pl_taskId payload)
                                  (task_name task) (task_assigned_to task) errorCode errorMessage,
                                ProviderCallback (pl_requestId payload) (pl_taskId payload) ''n8n''
                                  (if pl_executionId payload = [] then ''unknown''
                                   else pl_executionId payload)
                                  ''failed'' None],
                             resumedRequests := resumedRequests db @ [pl_requestId payload]\<rparr>)))"

text \<open>
  A delivery that passes authentication and field validation for a stored task: what a
  repeated delivery of an earlier, accepted callback is.
\<close>

definition acceptedDelivery ::
  "(string \<Rightarrow> string \<Rightarrow> string) \<Rightarrow> (string \<Rightarrow> N8nCallbackPayload option) \<Rightarrow> string option
     \<Rightarrow> Backend \<Rightarrow> string option \<Rightarrow> string \<Rightarrow> N8nCallbackPayload \<Rightarrow> RequestTask \<Rightarrow> bool" where
  "acceptedDelivery hmacSha256Hex parse webhookSecret db signature rawBody payload task \<longleftrightarrow>
     (case webhookSecret of
        None \<Rightarrow> False
      | Some secret \<Rightarrow>
          secret \<noteq> [] \<and> signature = Some (hmacSha256Hex secret rawBody) \<and>
          hmacSha256Hex secret rawBody \<noteq> []) \<and>
     parse rawBody = Some payload \<and>
     pl_requestId payload \<noteq> [] \<and> pl_taskId payload \<noteq> [] \<and> pl_status payload \<noteq> [] \<and>
     selectTask db (pl_taskId payload) (pl_requestId payload) = Some task"

section \<open>Response handler (api/response-handler.ts)\<close>

text \<open>
  Each call of \<open>waitForResponse\<close> creates one promise and one timer; the \<open>k\<close>-th call
  creates promise \<open>k\<close> and timer \<open>k\<close>. A promise is known by the number of its
  \<open>resolve\<close> function, and \<open>resolved\<close> lists every call of a \<open>resolve\<close> function together
  with the code path that made it. The promise has no \<open>reject\<close>: the waiter can only
  receive a value. \<open>pendingQuestions\<close> is the \<open>Map\<close> in insertion order; \<open>timers\<close> holds
  the timers that are armed, each with what its callback closes over. JavaScript runs
  one callback at a time, so a history of the handler is a sequence of events.

  The \<open>PUT\<close> route takes \<open>response\<close> from the parsed JSON body and passes it to
  \<open>submitResponse\<close> unchecked, so the value is any JavaScript value that JSON can give,
  or \<open>undefined\<close> when the member is missing. An object is the list of its members.
\<close>

datatype js_value =
    Undefined
  | Null
  | Str string
  | Num int
  | Bool bool
  | Arr "js_value list"
  | Obj "(string \<times> js_value) list"

datatype handler_error = TypeError

record UserResponse =
  ur_questionId :: string
  ur_response :: js_value
  ur_selectedOptionId :: js_value
  ur_timedOut :: bool
  ur_timestamp :: int

record PendingQuestion =
  pq_sessionId :: string
  pq_questionId :: string
  pq_timestamp :: int
  pq_resolve :: nat
  pq_timeout :: nat

record Timer =
  tm_key :: string
  tm_questionId :: string
  tm_resolve :: nat
  tm_delay :: int

datatype resolver = BySubmit | ByTimer | ByCancel

record ResponseHandler =
  pendingQuestions :: "(string \<times> PendingQuestion) list"
  timers :: "(nat \<times> Timer) list"
  resolved :: "(nat \<times> resolver \<times> UserResponse) list"
  created :: nat

definition defaultTimeout :: int where
  "defaultTimeout = 120000"

definition newResponseHandler :: ResponseHandler where
  "newResponseHandler = \<lparr> pendingQuestions = [], timers = [], resolved = [], created = 0 \<rparr>"

definition makeKey :: "string \<Rightarrow> string \<Rightarrow> string" where
  "makeKey sessionId questionId = sessionId @ '':'' @ questionId"

definition timedOutResponse :: "string \<Rightarrow> int \<Rightarrow> UserResponse" where
  "timedOutResponse questionId now =
     \<lparr> ur_questionId = questionId, ur_response = Str [], ur_selectedOptionId = Undefined,
       ur_timedOut = True, ur_timestamp = now \<rparr>"

text \<open>\<open>waitForResponse\<close>: returns the number of the promise it hands to the caller.\<close>

definition waitForResponse ::
  "ResponseHandler \<Rightarrow> int \<Rightarrow> string \<Rightarrow> string \<Rightarrow> int option \<Rightarrow> nat \<times> ResponseHandler" where
  "waitForResponse h now sessionId questionId timeout =
     (let key = makeKey sessionId questionId;
          n = created h
      in (n, h\<lparr>timers := AList.update n
                   \<lparr> tm_key = key, tm_questionId = questionId, tm_resolve = n,
                     tm_delay = (case timeout of None \<Rightarrow> defaultTimeout | Some t \<Rightarrow> t) \<rparr>
                   (timers h),
                pendingQuestions := AList.update key
                   \<lparr> pq_sessionId = sessionId, pq_questionId = questionId, pq_timestamp = now,
                     pq_resolve = n, pq_timeout = n \<rparr>
                   (pendingQuestions h),
                created := Suc n\<rparr>))"

text \<open>The callback given to \<open>setTimeout\<close>; a timer that is not armed does not run.\<close>

definition timerFires :: "ResponseHandler \<Rightarrow> int \<Rightarrow> nat \<Rightarrow> ResponseHandler" where
  "timerFires h now t =
     (case map_of (timers h) t of
        None \<Rightarrow> h
      | Some tm \<Rightarrow>
          let h1 = h\<lparr>timers := AList.delete t (timers h)\<rparr>
          in (case map_of (pendingQuestions h1) (tm_key tm) of
                None \<Rightarrow> h1
              | Some pending \<Rightarrow>
                  h1\<lparr>pendingQuestions := AList.delete (tm_key tm) (pendingQuestions h1),
                     resolved := resolved h1 @
                       [(tm_resolve tm, ByTimer, timedOutResponse (tm_questionId tm) now)]\<rparr>))"

text \<open>
  The two expressions of \<open>submitResponse\<close> that look into \<open>response\<close>.
  \<open>typeof response === 'string' ? response : response.response\<close> throws a \<open>TypeError\<close>
  when \<open>response\<close> is \<open>null\<close> or \<open>undefined\<close>, and gives \<open>undefined\<close> for a member that is
  missing and for any member of a number, a boolean or an array.
  \<open>typeof response === 'object' ? response.selectedOptionId : undefined\<close> is evaluated
  after it.
\<close>

definition responseOf :: "js_value \<Rightarrow> handler_error + js_value" where
  "responseOf response =
     (case response of
        Str r \<Rightarrow> Inr (Str r)
      | Undefined \<Rightarrow> Inl TypeError
      | Null \<Rightarrow> Inl TypeError
      | Obj members \<Rightarrow>
          Inr (case map_of members ''response'' of None \<Rightarrow> Undefined | Some r \<Rightarrow> r)
      | _ \<Rightarrow> Inr Undefined)"

definition selectedOptionOf :: "js_value \<Rightarrow> js_value" where
  "selectedOptionOf response =
     (case response of
        Obj members \<Rightarrow>
          (case map_of members ''selectedOptionId'' of None \<Rightarrow> Undefined | Some opt \<Rightarrow> opt)
      | _ \<Rightarrow> Undefined)"

text \<open>
  \<open>submitResponse\<close>: the timer is cleared and the entry deleted before the response
  object is built, so when building it throws, the question is gone from the map and
  its promise has not been resolved.
\<close>

definition submitResponse ::
  "ResponseHandler \<Rightarrow> int \<Rightarrow> string \<Rightarrow> string \<Rightarrow> js_value
     \<Rightarrow> (handler_error + bool) \<times> ResponseHandler" where
  "submitResponse h now sessionId questionId response =
     (let key = makeKey sessionId questionId
      in case map_of (pendingQuestions h) key of
           None \<Rightarrow> (Inr False, h)
         | Some pending \<Rightarrow>
             let h1 = h\<lparr>timers := AList.delete (pq_timeout pending) (timers h),
                        pendingQuestions := AList.delete key (pendingQuestions h)\<rparr>
             in case responseOf response of
                  Inl e \<Rightarrow> (Inl e, h1)
                | Inr r \<Rightarrow>
                    (Inr True,
                     h1\<lparr>resolved := resolved h1 @
                          [(pq_resolve pending, BySubmit,
                            \<lparr> ur_questionId = questionId, ur_response = r,
                              ur_selectedOptionId = selectedOptionOf response,
                              ur_timedOut = False, ur_timestamp = now \<rparr>)]\<rparr>))"

definition cancel :: "ResponseHandler \<Rightarrow> int \<Rightarrow> string \<Rightarrow> string \<Rightarrow> bool \<times> ResponseHandler" where
  "cancel h now sessionId questionId =
     (let key = makeKey sessionId questionId
      in case map_of (pendingQuestions h) key of
           None \<Rightarrow> (False, h)
         | Some pending \<Rightarrow>
             (True,
              h\<lparr>timers := AList.delete (pq_timeout pending) (timers h),
                pendingQuestions := AList.delete key (pendingQuestions h),
                resolved := resolved h @
                  [(pq_resolve pending, ByCancel, timedOutResponse questionId now)]\<rparr>))"

text \<open>
  The body of the loop of \<open>cancelSession\<close> for one key of the map; the response carries
  the question id stored in the entry. The loop visits the entries of the session in
  the order of the map.
\<close>

definition cancelPending :: "int \<Rightarrow> string \<Rightarrow> ResponseHandler \<Rightarrow> ResponseHandler" where
  "cancelPending now key h =
     (case map_of (pendingQuestions h) key of
        None \<Rightarrow> h
      | Some pending \<Rightarrow>
          h\<lparr>timers := AList.delete (pq_timeout pending) (timers h),
            pendingQuestions := AList.delete key (pendingQuestions h),
            resolved := resolved h @
              [(pq_resolve pending, ByCancel, timedOutResponse (pq_questionId pending) now)]\<rparr>)"

definition cancelSession :: "ResponseHandler \<Rightarrow> int \<Rightarrow> string \<Rightarrow> nat \<times> ResponseHandler" where
  "cancelSession h now sessionId =
     (let keys = map fst (filter (\<lambda>(key, pending). pq_sessionId pending = sessionId)
                                 (pendingQuestions h))
      in (length keys, fold (cancelPending now) keys h))"

definition hasPending :: "ResponseHandler \<Rightarrow> string \<Rightarrow> string \<Rightarrow> bool" where
  "hasPending h sessionId questionId \<longleftrightarrow>
     map_of (pendingQuestions h) (makeKey sessionId questionId) \<noteq> None"

definition getPendingCount :: "ResponseHandler \<Rightarrow> nat" where
  "getPendingCount h = length (pendingQuestions h)"

text \<open>What can happen to a handler, each with the clock reading at that moment.\<close>

datatype handler_event =
    WaitForResponse string string "int option"
  | SubmitResponse string string js_value
  | TimerFires nat
  | Cancel string string
  | CancelSession string

fun handler_step :: "ResponseHandler \<Rightarrow> int \<times> handler_event \<Rightarrow> ResponseHandler" where
  "handler_step h (now, WaitForResponse s q timeout) = snd (waitForResponse h now s q timeout)"
| "handler_step h (now, SubmitResponse s q response) = snd (submitResponse h now s q response)"
| "handler_step h (now, TimerFires t) = timerFires h now t"
| "handler_step h (now, Cancel s q) = snd (cancel h now s q)"
| "handler_step h (now, CancelSession s) = snd (cancelSession h now s)"

definition handler_run :: "ResponseHandler \<Rightarrow> (int \<times> handler_event) list \<Rightarrow> ResponseHandler" where
  "handler_run h events = foldl handler_step h events"

text \<open>Time passes until every timer that is still armed has run.\<close>

definition allTimersFire :: "ResponseHandler \<Rightarrow> int \<Rightarrow> ResponseHandler" where
  "allTimersFire h now = fold (\<lambda>t h'. timerFires h' now t) (map fst (timers h)) h"

definition resolutionsOf :: "ResponseHandler \<Rightarrow> nat \<Rightarrow> (resolver \<times> UserResponse) list" where
  "resolutionsOf h n = map snd (filter (\<lambda>r. fst r = n) (resolved h))"




section \<open>JavaScript numbers in the coverage percentage\<close>

text \<open>
  \<open>(coveredReqs.size / allReqs.length) * 100\<close> is computed on IEEE 754 binary64 values
  and then given to \<open>Math.round\<close>. A positive binary64 value is \<open>significand * 2^exponent\<close>
  with a significand of at most 53 bits; the result of an operation is the exact result
  rounded to the nearest such value, ties to the even significand. Sizes of arrays and
  sets are below \<open>2^32\<close> and the values of this computation lie between \<open>2^-32\<close> and
  \<open>100\<close>, far inside the normal range, so underflow and overflow play no part.
\<close>

record binary64 =
  significand :: int
  exponent :: int

text \<open>The integer nearest to \<open>a / b\<close> for \<open>b > 0\<close>, ties to even.\<close>

definition roundHalfEven :: "int \<Rightarrow> int \<Rightarrow> int" where
  "roundHalfEven a b =
     (let q = a div b; r = a mod b
      in if 2 * r < b then q else if 2 * r > b then q + 1 else if even q then q else q + 1)"

text \<open>
  The binary64 value nearest to \<open>a / b * 2^s\<close> for \<open>a \<ge> 0\<close> and \<open>b > 0\<close>: scaled by \<open>2^t\<close>
  the quotient lies between \<open>2^52\<close> and \<open>2^54\<close>, and one more halving brings it below
  \<open>2^53\<close>, where it is rounded to an integer.
\<close>

definition toBinary64 :: "int \<Rightarrow> int \<Rightarrow> int \<Rightarrow> binary64" where
  "toBinary64 a b s =
     (if a = 0 then \<lparr> significand = 0, exponent = 0 \<rparr>
      else
        let t = 53 - bitlen a + bitlen b;
            num = a * 2 ^ nat t;
            den = b * 2 ^ nat (- t)
        in if num \<ge> 2 ^ 53 * den
           then \<lparr> significand = roundHalfEven num (2 * den), exponent = s - t + 1 \<rparr>
           else \<lparr> significand = roundHalfEven num den, exponent = s - t \<rparr>)"

text \<open>An integer below \<open>2^53\<close> in magnitude is a binary64 value as it is.\<close>

definition ofInt64 :: "int \<Rightarrow> binary64" where
  "ofInt64 n = \<lparr> significand = n, exponent = 0 \<rparr>"

definition divide64 :: "binary64 \<Rightarrow> binary64 \<Rightarrow> binary64" where
  "divide64 x y = toBinary64 (significand x) (significand y) (exponent x - exponent y)"

definition times64 :: "binary64 \<Rightarrow> binary64 \<Rightarrow> binary64" where
  "times64 x y = toBinary64 (significand x * significand y) 1 (exponent x + exponent y)"

text \<open>\<open>Math.round(x)\<close> is \<open>floor(x + 1/2)\<close>, computed exactly.\<close>

definition mathRound :: "binary64 \<Rightarrow> int" where
  "mathRound x =
     (if exponent x \<ge> 0 then significand x * 2 ^ nat (exponent x)
      else (2 * significand x + 2 ^ nat (- exponent x)) div 2 ^ (nat (- exponent x) + 1))"

text \<open>The real number that a binary64 value stands for.\<close>

definition value64 :: "binary64 \<Rightarrow> real" where
  "value64 x = real_of_int (significand x) * 2 powr real_of_int (exponent x)"

section \<open>Plan coverage (core/orchestrator.ts, validatePlanCoverage)\<close>

text \<open>
  The two documents are read from the knowledge store and parsed. \<open>JSON.parse\<close> is an
  input of the model, one function per document shape, \<open>None\<close> where the call throws
  or the text has not that shape. \<open>coversRequirements\<close> is \<open>None\<close> for a task without
  the field.
\<close>

record Requirement =
  req_id :: string
  req_description :: string

record RequirementsDocument =
  rd_explicit :: "Requirement list"
  rd_implicit :: "Requirement list"

record PlanTask =
  pt_id :: string
  pt_coversRequirements :: "string list option"

record PlanDocument =
  pd_tasks :: "PlanTask list"

record PlanCoverage =
  pc_isComplete :: bool
  pc_percentage :: int
  pc_gaps :: "string list"

text \<open>The ids added to the set \<open>coveredReqs\<close>, in the order of the two loops.\<close>

definition coveredReqs :: "PlanDocument \<Rightarrow> string list" where
  "coveredReqs plan =
     concat (map (\<lambda>task. case pt_coversRequirements task of None \<Rightarrow> [] | Some ids \<Rightarrow> ids)
                 (pd_tasks plan))"

definition planCoverage :: "RequirementsDocument \<Rightarrow> PlanDocument \<Rightarrow> PlanCoverage" where
  "planCoverage requirements plan =
     (let allReqs = rd_explicit requirements @ rd_implicit requirements;
          covered = coveredReqs plan;
          gaps = map req_id (filter (\<lambda>r. req_id r \<notin> set covered) allReqs);
          percentage =
            (if length allReqs > 0
             then times64 (divide64 (ofInt64 (int (card (set covered))))
                                    (ofInt64 (int (length allReqs))))
                          (ofInt64 100)
             else ofInt64 100)
      in \<lparr> pc_isComplete = (gaps = []), pc_percentage = mathRound percentage, pc_gaps = gaps \<rparr>)"

definition validatePlanCoverage ::
  "(string \<Rightarrow> RequirementsDocument option) \<Rightarrow> (string \<Rightarrow> PlanDocument option) \<Rightarrow> KnowledgeStore
     \<Rightarrow> string + PlanCoverage" where
  "validatePlanCoverage parseRequirements parsePlan store =
     (case (read store ''/requirements/main.json'' None, read store ''/plan/main.json'' None) of
        (Some reqDoc, Some planDoc) \<Rightarrow>
          (case (parseRequirements (doc_content reqDoc), parsePlan (doc_content planDoc)) of
             (Some requirements, Some plan) \<Rightarrow> Inr (planCoverage requirements plan)
           | _ \<Rightarrow> Inl ''SyntaxError'')
      | _ \<Rightarrow> Inr \<lparr> pc_isComplete = False, pc_percentage = 0, pc_gaps = [''Documents not found''] \<rparr>)"

section \<open>Orchestrator (core/orchestrator.ts)\<close>

text \<open>
  \<open>run\<close> drives the phases inside one \<open>try\<close> block. The agents are outside the model:
  the \<open>k\<close>-th call of an agent's \<open>run()\<close> in a session is \<open>agents name k\<close>, a function from
  the workspace the agent is given (sandbox files, budget totals, knowledge store, event
  stream) to what the call yields and the workspace it leaves. A thrown value is an
  \<open>Error\<close> with its message or something else; the handler of \<open>run\<close> reports
  \<open>Unknown error\<close> for the latter.
\<close>

datatype phase =
    IDLE | INTAKE | RESEARCH | ARCHITECTURE | PLAN_VALIDATION | BUILDING | VERIFICATION
  | DEPLOYMENT | COMPLETE | FAILED

datatype agent_name = hermes | athena | hephaestus | apollo | artemis

datatype thrown = Error string | NotAnError

datatype orchestrator_event =
    GENERATION_STARTED
  | PHASE_STARTED phase
  | PHASE_COMPLETED phase
  | GENERATION_COMPLETED
  | GENERATION_FAILED string phase
  | AGENT_EVENT string

record Workspace =
  ws_files :: "(string \<times> string) list"
  ws_totalTokens :: int
  ws_estimatedCost :: int
  ws_knowledge :: KnowledgeStore
  ws_events :: "orchestrator_event list"

text \<open>
  What an agent's \<open>run()\<close> returns: \<open>data\<close> is \<open>None\<close> when the result carries no data, and
  otherwise holds the \<open>url\<close> field of the data, if any.
\<close>

record AgentResult =
  ar_success :: bool
  ar_error :: "string option"
  ar_data :: "string option option"

datatype agent_outcome = AgentReturns AgentResult | AgentThrows thrown

record Orchestrator =
  currentPhase :: phase
  workspace :: Workspace
  checkpoints :: nat
  agentRuns :: nat

record GenerationOptions =
  opt_projectId :: string
  opt_skipDeploy :: bool

record GenerationResult =
  gr_success :: bool
  gr_projectId :: string
  gr_files :: "(string \<times> string) list"
  gr_filesCount :: nat
  gr_tokensUsed :: int
  gr_estimatedCost :: int
  gr_duration :: int
  gr_deployedUrl :: "string option"
  gr_error :: "string option"
  gr_summary :: string


definition emit :: "orchestrator_event \<Rightarrow> Orchestrator \<Rightarrow> Orchestrator" where
  "emit e s = s\<lparr>workspace := (workspace s)\<lparr>ws_events := ws_events (workspace s) @ [e]\<rparr>\<rparr>"

text \<open>
  Modelled from the spec: the class \<open>StateMachine\<close> (core/state-machine.ts) and the table
  \<open>V14_PHASE_TRANSITIONS\<close> are not among the sources. The specification fixes a
  transition table giving each phase its valid next phases; the table is a parameter
  here, and a transition that the table does not list throws and leaves the phase as
  it is.
\<close>

definition transition :: "(phase \<Rightarrow> phase list) \<Rightarrow> phase \<Rightarrow> Orchestrator \<Rightarrow> (thrown + unit) \<times> Orchestrator" where
  "transition table target s =
     (if target \<in> set (table (currentPhase s)) then (Inr (), s\<lparr>currentPhase := target\<rparr>)
      else (Inl (Error ''Invalid phase transition''), s))"

text \<open>Sequencing of steps that may throw: the first exception ends the sequence.\<close>

definition andThen ::
  "(Orchestrator \<Rightarrow> (thrown + 'a) \<times> Orchestrator) \<Rightarrow> ('a \<Rightarrow> Orchestrator \<Rightarrow> (thrown + 'b) \<times> Orchestrator)
     \<Rightarrow> Orchestrator \<Rightarrow> (thrown + 'b) \<times> Orchestrator" where
  "andThen step next s =
     (case step s of
        (Inl ex, s') \<Rightarrow> (Inl ex, s')
      | (Inr v, s') \<Rightarrow> next v s')"

definition runAgent ::
  "(agent_name \<Rightarrow> nat \<Rightarrow> Workspace \<Rightarrow> agent_outcome \<times> Workspace) \<Rightarrow> agent_name
     \<Rightarrow> Orchestrator \<Rightarrow> (thrown + AgentResult) \<times> Orchestrator" where
  "runAgent agents name s =
     (let (outcome, w) = agents name (agentRuns s) (workspace s);
          s' = s\<lparr>workspace := w, agentRuns := Suc (agentRuns s)\<rparr>
      in case outcome of
           AgentThrows ex \<Rightarrow> (Inl ex, s')
         | AgentReturns result \<Rightarrow> (Inr result, s'))"

text \<open>\<open>if (!result.success) throw new Error(result.error?.message)\<close>.\<close>

definition requireSuccess :: "AgentResult \<Rightarrow> Orchestrator \<Rightarrow> (thrown + AgentResult) \<times> Orchestrator" where
  "requireSuccess result s =
     (if \<not> ar_success result
      then (Inl (Error (case ar_error result of None \<Rightarrow> [] | Some m \<Rightarrow> m)), s)
      else (Inr result, s))"

definition runPhase ::
  "(phase \<Rightarrow> phase list) \<Rightarrow> phase \<Rightarrow> (Orchestrator \<Rightarrow> (thrown + 'a) \<times> Orchestrator)
     \<Rightarrow> Orchestrator \<Rightarrow> (thrown + 'a) \<times> Orchestrator" where
  "runPhase table ph body =
     andThen (transition table ph) (\<lambda>_ s1.
       andThen body (\<lambda>v s2.
         (Inr v, emit (PHASE_COMPLETED ph) (s2\<lparr>checkpoints := Suc (checkpoints s2)\<rparr>)))
         (emit (PHASE_STARTED ph) s1))"

text \<open>The decimal digits of a percentage, for the message of the coverage error.\<close>

function decimal :: "nat \<Rightarrow> string" where
  "decimal n = (if n < 10 then [char_of (48 + n)] else decimal (n div 10) @ [char_of (48 + n mod 10)])"
  by pat_completeness auto
termination
  by (relation "measure id") auto

definition coverageStep ::
  "(string \<Rightarrow> RequirementsDocument option) \<Rightarrow> (string \<Rightarrow> PlanDocument option)
     \<Rightarrow> Orchestrator \<Rightarrow> (thrown + PlanCoverage) \<times> Orchestrator" where
  "coverageStep parseRequirements parsePlan s =
     (case validatePlanCoverage parseRequirements parsePlan (ws_knowledge (workspace s)) of
        Inl m \<Rightarrow> (Inl (Error m), s)
      | Inr coverage \<Rightarrow> (Inr coverage, s))"

text \<open>The body of the \<open>try\<close> block of \<open>run\<close>; its value is \<open>deployedUrl\<close>.\<close>

definition generation ::
  "(phase \<Rightarrow> phase list) \<Rightarrow> (agent_name \<Rightarrow> nat \<Rightarrow> Workspace \<Rightarrow> agent_outcome \<times> Workspace)
     \<Rightarrow> (string \<Rightarrow> RequirementsDocument option) \<Rightarrow> (string \<Rightarrow> PlanDocument option)
     \<Rightarrow> GenerationOptions \<Rightarrow> Orchestrator \<Rightarrow> (thrown + string option) \<times> Orchestrator" where
  "generation table agents parseRequirements parsePlan options =
     andThen (runPhase table INTAKE (andThen (runAgent agents hermes) requireSuccess)) (\<lambda>_.
     andThen (runPhase table RESEARCH (andThen (runAgent agents athena) requireSuccess)) (\<lambda>_.
     andThen (runPhase table PLAN_VALIDATION
       (andThen (coverageStep parseRequirements parsePlan) (\<lambda>coverage.
          if \<not> pc_isComplete coverage then
            andThen (transition table ARCHITECTURE) (\<lambda>_.
            andThen (runAgent agents athena) (\<lambda>_.
            andThen (coverageStep parseRequirements parsePlan) (\<lambda>retry s.
              if \<not> pc_isComplete retry then
                (Inl (Error (''Plan only covers '' @ decimal (nat (pc_percentage retry))
                             @ ''% of requirements'')), s)
              else (Inr (), s))))
          else (\<lambda>s. (Inr (), s))))) (\<lambda>_.
     andThen (runPhase table BUILDING (andThen (runAgent agents hephaestus) requireSuccess)) (\<lambda>_.
     andThen (runPhase table VERIFICATION
       (andThen (runAgent agents apollo) (\<lambda>result.
          if \<not> ar_success result then transition table BUILDING
          else (\<lambda>s. (Inr (), s))))) (\<lambda>_.
     andThen (if \<not> opt_skipDeploy options then
                runPhase table DEPLOYMENT
                  (andThen (runAgent agents artemis) (\<lambda>result.
                   andThen (requireSuccess result) (\<lambda>_ s.
                     case ar_data result of
                       None \<Rightarrow> (Inl (Error ''Cannot read properties of undefined''), s)
                     | Some url \<Rightarrow> (Inr url, s))))
              else (\<lambda>s. (Inr None, s))) (\<lambda>deployedUrl.
     andThen (transition table COMPLETE) (\<lambda>_ s. (Inr deployedUrl, s))))))))"

definition errorMessage :: "thrown \<Rightarrow> string" where
  "errorMessage ex = (case ex of Error m \<Rightarrow> m | NotAnError \<Rightarrow> ''Unknown error'')"

text \<open>
  \<open>run()\<close>: \<open>startTime\<close> and \<open>endTime\<close> are the two readings of the clock. The result is
  \<open>Inl\<close> when \<open>run\<close> itself rejects, which happens only when the transition to
  \<open>failed\<close> in the handler throws.
\<close>

definition run ::
  "(phase \<Rightarrow> phase list) \<Rightarrow> (agent_name \<Rightarrow> nat \<Rightarrow> Workspace \<Rightarrow> agent_outcome \<times> Workspace)
     \<Rightarrow> (string \<Rightarrow> RequirementsDocument option) \<Rightarrow> (string \<Rightarrow> PlanDocument option)
     \<Rightarrow> GenerationOptions \<Rightarrow> int \<Rightarrow> int \<Rightarrow> Orchestrator \<Rightarrow> (thrown + GenerationResult) \<times> Orchestrator" where
  "run table agents parseRequirements parsePlan options startTime endTime s0 =
     (case generation table agents parseRequirements parsePlan options (emit GENERATION_STARTED s0) of
        (Inr deployedUrl, s) \<Rightarrow>
          (Inr \<lparr> gr_success = True, gr_projectId = opt_projectId options,
                 gr_files = ws_files (workspace s), gr_filesCount = length (ws_files (workspace s)),
                 gr_tokensUsed = ws_totalTokens (workspace s),
                 gr_estimatedCost = ws_estimatedCost (workspace s),
                 gr_duration = endTime - startTime, gr_deployedUrl = deployedUrl, gr_error = None,
                 gr_summary = ''Generation completed successfully'' \<rparr>,
           emit GENERATION_COMPLETED s)
      | (Inl ex, s) \<Rightarrow>
          (case transition table FAILED s of
             (Inl ex', s') \<Rightarrow> (Inl ex', s')
           | (Inr _, s') \<Rightarrow>
               (Inr \<lparr> gr_success = False, gr_projectId = opt_projectId options,
                      gr_files = ws_files (workspace s'),
                      gr_filesCount = length (ws_files (workspace s')),
                      gr_tokensUsed = ws_totalTokens (workspace s'),
                      gr_estimatedCost = ws_estimatedCost (workspace s'),
                      gr_duration = endTime - startTime, gr_deployedUrl = None,
                      gr_error = Some (errorMessage ex), gr_summary = ''Generation failed'' \<rparr>,
                emit (GENERATION_FAILED (errorMessage ex) (currentPhase s')) s')))"

section \<open>Invariants of the response handler\<close>





text \<open>
  The common shape of the steps that take a question out of the map: timer \<open>w\<close> is
  disarmed, the entry of key \<open>k\<close> is deleted, and promise \<open>w\<close> is resolved with each of
  \<open>xs\<close> (none or one).
\<close>

definition settle ::
  "nat \<Rightarrow> string \<Rightarrow> (resolver \<times> UserResponse) list \<Rightarrow> ResponseHandler \<Rightarrow> ResponseHandler" where
  "settle w k xs h =
     h\<lparr>timers := AList.delete w (timers h),
       pendingQuestions := AList.delete k (pendingQuestions h),
       resolved := resolved h @ map (Pair w) xs\<rparr>"


section \<open>Sample inputs\<close>

text \<open>Concrete stores, histories and oracles at which the theorems below are evaluated.\<close>

definition store_v7 :: KnowledgeStore where
  "store_v7 = (newKnowledgeStore None)\<lparr>documents :=
     [''/plan/main'' \<mapsto> \<lparr> doc_path = ''/plan/main'', doc_content = ''old'', doc_version = 7,
         doc_createdAt = 0, doc_updatedAt = 0, doc_createdBy = ''athena'',
         doc_updatedBy = ''athena'', doc_contentHash = ''old'' \<rparr>]\<rparr>"








definition tool_response :: LLMResponse where
  "tool_response =
     \<lparr> resp_content = [TextBlock (Some ''working''), ToolUseBlock ''t1'' ''emit_progress'' ''{}''],
       resp_stopReason = tool_use, resp_inputTokens = 10, resp_outputTokens = 5 \<rparr>"

definition final_response :: LLMResponse where
  "final_response =
     \<lparr> resp_content = [TextBlock (Some ''done'')], resp_stopReason = end_turn,
       resp_inputTokens = 10, resp_outputTokens = 5 \<rparr>"

definition always_tool_use :: "nat \<Rightarrow> string + LLMResponse" where
  "always_tool_use k = Inr tool_response"

definition done_on_second_call :: "nat \<Rightarrow> string + LLMResponse" where
  "done_on_second_call k = (if k = 0 then Inr tool_response else Inr final_response)"

definition fails_on_third_call :: "nat \<Rightarrow> string + LLMResponse" where
  "fails_on_third_call k = (if k < 2 then Inr tool_response else Inl ''overloaded'')"

definition api_down :: "nat \<Rightarrow> string + LLMResponse" where
  "api_down k = Inl ''overloaded''"

definition tool_ok :: "nat \<Rightarrow> string \<Rightarrow> string \<Rightarrow> string + ToolResult" where
  "tool_ok k name input = Inr \<lparr> tr_success = True, tr_data = Some ''{}'', tr_error = None \<rparr>"

definition sample_agent :: "int \<Rightarrow> Agent" where
  "sample_agent budget =
     \<lparr> callsMade = 0, maxCalls = budget, tokensUsed = 0, iterationsUsed = 0,
       apiCalls = 0, toolCalls = 0 \<rparr>"

definition sample_hmac :: "string \<Rightarrow> string \<Rightarrow> string" where
  "sample_hmac secret body = rev secret @ body"

definition sample_payload :: N8nCallbackPayload where
  "sample_payload =
     \<lparr> pl_requestId = ''r1'', pl_taskId = ''t1'', pl_executionId = ''e1'', pl_workflowId = None,
       pl_status = ''success'', pl_result = Some ''{}'', pl_output_url = Some ''u'',
       pl_error_code = [], pl_error_message = [] \<rparr>"

definition sample_parse :: "string \<Rightarrow> N8nCallbackPayload option" where
  "sample_parse body = (if body = ''payload-1'' then Some sample_payload else None)"

definition sample_task :: RequestTask where
  "sample_task =
     \<lparr> task_request_id = ''r1'', task_status = ''in_progress'', task_name = ''render'',
       task_assigned_to = ''n8n'', task_output_data = None, task_output_url = None,
       task_error_message = None, task_completed_at = None \<rparr>"

definition sample_backend :: Backend where
  "sample_backend =
     \<lparr> request_tasks = [''t1'' \<mapsto> sample_task], provider_metadata = [], eventLogger = [],
       resumedRequests = [] \<rparr>"

definition backend_after_first :: Backend where
  "backend_after_first =
     snd (POST sample_hmac sample_parse (Some ''k'') 100 sample_backend (Some ''kpayload-1'')
            ''payload-1'')"




definition req :: "string \<Rightarrow> Requirement" where
  "req i = \<lparr> req_id = i, req_description = [] \<rparr>"






definition dup_requirements :: RequirementsDocument where
  "dup_requirements = \<lparr> rd_explicit = [req ''r1''], rd_implicit = [req ''r1''] \<rparr>"

definition dup_plan :: PlanDocument where
  "dup_plan = \<lparr> pd_tasks = [\<lparr> pt_id = ''t1'', pt_coversRequirements = Some [''r1''] \<rparr>] \<rparr>"

definition numbered_ids :: "nat \<Rightarrow> string list" where
  "numbered_ids n = map (\<lambda>k. replicate (Suc k) CHR ''r'') [0..<n]"

definition numbered_requirements :: "nat \<Rightarrow> RequirementsDocument" where
  "numbered_requirements n = \<lparr> rd_explicit = map req (numbered_ids n), rd_implicit = [] \<rparr>"

definition plan_covering :: "nat \<Rightarrow> PlanDocument" where
  "plan_covering n = \<lparr> pd_tasks = [\<lparr> pt_id = ''t'', pt_coversRequirements = Some (numbered_ids n) \<rparr>] \<rparr>"







section \<open>Properties of the knowledge store\<close>

lemma writeDoc_failure_keeps_documents:
  "\<not> wr_success (fst (writeDoc sha256 now s p c expected)) \<Longrightarrow>
     documents (snd (writeDoc sha256 now s p c expected)) = documents s"
  by (simp add: writeDoc_def Let_def split: if_splits)

text \<open>
  Claim C1 says that a write with a stale \<open>expectedVersion\<close> returns \<open>VERSION_CONFLICT\<close> for
  every path and content. The path and the size are checked first: on a fresh store,
  expected version 5 is stale, and writing to the path \<open>requirements\<close> (no leading slash)
  fails with \<open>INVALID_PATH\<close>; with a ceiling of two characters, writing three characters
  to a valid path fails with \<open>CONTENT_TOO_LARGE\<close>.
\<close>

theorem write_stale_version_counterexample:
  "5 \<noteq> currentVersionAt (newKnowledgeStore None) ''requirements'' \<and>
   map_option err_code
     (wr_error (fst (writeDoc id 0 (newKnowledgeStore None) ''requirements'' ''x'' (Some 5))))
     = Some INVALID_PATH \<and>
   5 \<noteq> currentVersionAt (newKnowledgeStore (Some 2)) ''/plan/main'' \<and>
   map_option err_code
     (wr_error (fst (writeDoc id 0 (newKnowledgeStore (Some 2)) ''/plan/main'' ''xyz'' (Some 5))))
     = Some CONTENT_TOO_LARGE"
  by (simp add: writeDoc_def currentVersionAt_def newKnowledgeStore_def pathChar_def)

text \<open>
  Claim C1, amended: for every valid path and every content within the size ceiling, a
  write whose \<open>expectedVersion\<close> differs from the current version (0 when there is no
  document) leaves the document map unchanged and returns an unsuccessful result with
  code \<open>VERSION_CONFLICT\<close>, the true current version and the expected version.
\<close>

theorem write_stale_version_conflict:
  assumes "isValidPath p" and "int (length c) \<le> maxDocumentSize s"
    and "e \<noteq> currentVersionAt s p"
  shows "documents (snd (writeDoc sha256 now s p c (Some e))) = documents s \<and>
         fst (writeDoc sha256 now s p c (Some e)) =
           \<lparr> wr_success = False, wr_path = p, wr_version = currentVersionAt s p,
             wr_previousVersion = None,
             wr_error = Some \<lparr> err_code = VERSION_CONFLICT,
                               err_currentVersion = Some (currentVersionAt s p),
                               err_expectedVersion = Some e \<rparr> \<rparr>"
  using assms by (auto simp add: writeDoc_def currentVersionAt_def Let_def)

theorem write_stale_version_conflict_witness:
  "isValidPath ''/plan/main'' \<and>
   int (length ''new'') \<le> maxDocumentSize store_v7 \<and>
   5 \<noteq> currentVersionAt store_v7 ''/plan/main'' \<and>
   documents (snd (writeDoc id 1 store_v7 ''/plan/main'' ''new'' (Some 5))) = documents store_v7 \<and>
   wr_error (fst (writeDoc id 1 store_v7 ''/plan/main'' ''new'' (Some 5))) =
     Some \<lparr> err_code = VERSION_CONFLICT, err_currentVersion = Some 7,
            err_expectedVersion = Some 5 \<rparr>"
proof -
  have v: "isValidPath ''/plan/main''" by (simp add: pathChar_def)
  have m: "int (length ''new'') \<le> maxDocumentSize store_v7"
    by (simp add: store_v7_def newKnowledgeStore_def)
  have c: "currentVersionAt store_v7 ''/plan/main'' = 7"
    by (simp add: store_v7_def currentVersionAt_def)
  then have e: "5 \<noteq> currentVersionAt store_v7 ''/plan/main''" by simp
  from write_stale_version_conflict [OF v m e, of id 1] v m e c show ?thesis by simp
qed








lemma isValidPath_iff:
  "isValidPath p \<longleftrightarrow> (\<exists>cs. p = CHR ''/'' # cs \<and> cs \<noteq> [] \<and> (\<forall>c \<in> set cs. pathChar c))"
  by (cases p) (auto simp add: list_all_iff)

lemma writeDoc_invalid_path:
  "map_option err_code (wr_error (fst (writeDoc sha256 now s p c expected))) = Some INVALID_PATH
     \<longleftrightarrow> \<not> isValidPath p"
  by (simp add: writeDoc_def Let_def)

text \<open>
  What \<open>write\<close> does with a path: it fails with \<open>INVALID_PATH\<close> exactly when the path does
  not match \<open>^/[a-zA-Z0-9/_-]+$\<close>, and then the store is left as it was. The test is on
  the characters of the path, not on its segments.
\<close>

lemma writeDoc_invalid_path_iff:
  "(map_option err_code (wr_error (fst (writeDoc sha256 now s p c expected))) = Some INVALID_PATH
      \<longleftrightarrow> \<not> (\<exists>cs. p = CHR ''/'' # cs \<and> cs \<noteq> [] \<and> (\<forall>ch \<in> set cs. pathChar ch))) \<and>
   (map_option err_code (wr_error (fst (writeDoc sha256 now s p c expected))) = Some INVALID_PATH
      \<longrightarrow> snd (writeDoc sha256 now s p c expected) = s)"
proof -
  have "\<not> isValidPath p \<Longrightarrow> snd (writeDoc sha256 now s p c expected) = s"
    by (simp add: writeDoc_def)
  then show ?thesis
    unfolding writeDoc_invalid_path isValidPath_iff [symmetric] by blast
qed

lemma json_paths_invalid:
  "\<not> isValidPath ''/requirements/main.json''" "\<not> isValidPath ''/plan/main.json''"
  by (simp_all add: pathChar_def)

text \<open>
  Claim C9: \<open>write\<close> fails with \<open>INVALID_PATH\<close> exactly when the path is not a hierarchical
  key of non-empty segments. The code does not do this. \<open>/requirements/main.json\<close> is the
  path under which \<open>toolWriteRequirements\<close> of the requirements agent writes and under
  which the architecture agent and \<open>validatePlanCoverage\<close> read, and \<open>/plan/main.json\<close>
  is the path of the plan; both are keys of two non-empty segments. For every store,
  content and expected version, \<open>write\<close> rejects both with \<open>INVALID_PATH\<close> and stores
  nothing, because the pattern of \<open>isValidPath\<close> has no dot. The same pattern accepts
  \<open>/plan//main\<close>, which has an empty segment, and the document is stored.
\<close>

theorem write_rejects_document_paths:
  "spec_nonEmptySegments ''/requirements/main.json'' \<and>
   \<not> wr_success (fst (writeDoc sha256 now s ''/requirements/main.json'' c expected)) \<and>
   map_option err_code (wr_error (fst (writeDoc sha256 now s ''/requirements/main.json'' c expected)))
     = Some INVALID_PATH \<and>
   snd (writeDoc sha256 now s ''/requirements/main.json'' c expected) = s \<and>
   spec_nonEmptySegments ''/plan/main.json'' \<and>
   \<not> wr_success (fst (writeDoc sha256 now s ''/plan/main.json'' c expected)) \<and>
   map_option err_code (wr_error (fst (writeDoc sha256 now s ''/plan/main.json'' c expected)))
     = Some INVALID_PATH \<and>
   snd (writeDoc sha256 now s ''/plan/main.json'' c expected) = s \<and>
   \<not> spec_nonEmptySegments ''/plan//main'' \<and>
   wr_success (fst (writeDoc id 0 (newKnowledgeStore None) ''/plan//main'' ''x'' None)) \<and>
   map_option doc_content
     (documents (snd (writeDoc id 0 (newKnowledgeStore None) ''/plan//main'' ''x'' None))
        ''/plan//main'') = Some ''x''"
proof -
  have a: "spec_nonEmptySegments ''/requirements/main.json''"
    "spec_nonEmptySegments ''/plan/main.json''" "\<not> spec_nonEmptySegments ''/plan//main''"
    by (simp_all add: spec_nonEmptySegments_def)
  have b: "\<not> wr_success (fst (writeDoc sha256 now s p c expected)) \<and>
      map_option err_code (wr_error (fst (writeDoc sha256 now s p c expected))) = Some INVALID_PATH \<and>
      snd (writeDoc sha256 now s p c expected) = s" if "\<not> isValidPath p" for p
    using that by (simp add: writeDoc_def)
  have d: "wr_success (fst (writeDoc id 0 (newKnowledgeStore None) ''/plan//main'' ''x'' None)) \<and>
      map_option doc_content
        (documents (snd (writeDoc id 0 (newKnowledgeStore None) ''/plan//main'' ''x'' None))
           ''/plan//main'') = Some ''x''"
    by (simp add: writeDoc_def newKnowledgeStore_def pathChar_def notifySubscribers_def Let_def)
  from a b [OF json_paths_invalid(1)] b [OF json_paths_invalid(2)] d show ?thesis by blast
qed

text \<open>
  Claim C10: for every valid path and every content within the size ceiling, a write
  without \<open>expectedVersion\<close> succeeds (so it is never a \<open>VERSION_CONFLICT\<close>), replaces the
  content at the path whatever version is there, sets the version to the current one
  plus 1, and leaves every other path alone.
\<close>

theorem write_blind_succeeds:
  assumes "isValidPath p" and "int (length c) \<le> maxDocumentSize s"
  shows "fst (writeDoc sha256 now s p c None) =
           \<lparr> wr_success = True, wr_path = p, wr_version = currentVersionAt s p + 1,
             wr_previousVersion = map_option doc_version (documents s p), wr_error = None \<rparr> \<and>
         map_option doc_content (documents (snd (writeDoc sha256 now s p c None)) p) = Some c \<and>
         currentVersionAt (snd (writeDoc sha256 now s p c None)) p = currentVersionAt s p + 1 \<and>
         (\<forall>q. q \<noteq> p \<longrightarrow> documents (snd (writeDoc sha256 now s p c None)) q = documents s q)"
  using assms
  by (simp add: writeDoc_def currentVersionAt_def notifySubscribers_def Let_def)

theorem write_blind_succeeds_witness:
  "isValidPath ''/plan/main'' \<and> int (length ''new'') \<le> maxDocumentSize store_v7 \<and>
   currentVersionAt store_v7 ''/plan/main'' = 7 \<and>
   wr_success (fst (writeDoc id 1 store_v7 ''/plan/main'' ''new'' None)) \<and>
   wr_version (fst (writeDoc id 1 store_v7 ''/plan/main'' ''new'' None)) = 8 \<and>
   map_option doc_content
     (documents (snd (writeDoc id 1 store_v7 ''/plan/main'' ''new'' None)) ''/plan/main'')
     = Some ''new''"
proof -
  have v: "isValidPath ''/plan/main''" by (simp add: pathChar_def)
  have m: "int (length ''new'') \<le> maxDocumentSize store_v7"
    by (simp add: store_v7_def newKnowledgeStore_def)
  have c: "currentVersionAt store_v7 ''/plan/main'' = 7"
    by (simp add: store_v7_def currentVersionAt_def)
  from write_blind_succeeds [OF v m, of id 1] v m c show ?thesis by simp
qed

section \<open>Properties of the circuit breaker\<close>












section \<open>Properties of the agent tool loop\<close>

lemma processBlocks_counters:
  "apiCalls (snd (processBlocks handler ag bs)) = apiCalls ag \<and>
   callsMade (snd (processBlocks handler ag bs)) = callsMade ag \<and>
   maxCalls (snd (processBlocks handler ag bs)) = maxCalls ag"
  by (induction handler ag bs rule: processBlocks.induct)
     (simp_all add: split_beta executeTool_def)

lemma processBlocks_toolResults:
  "fst (snd (fst (processBlocks handler ag bs))) \<noteq> [] \<longleftrightarrow> list_ex isToolUse bs"
  by (induction handler ag bs rule: processBlocks.induct) (simp_all add: split_beta)

lemma processBlocks_text:
  "snd (snd (fst (processBlocks handler ag bs))) = concat (map blockText bs)"
proof (induction bs arbitrary: ag)
  case Nil
  then show ?case by simp
next
  case (Cons b bs)
  show ?case
  proof (cases b)
    case (TextBlock t)
    then show ?thesis using Cons by (cases t) (simp_all add: split_beta)
  next
    case (ToolUseBlock i name input)
    then show ?thesis using Cons by (simp add: split_beta)
  next
    case (ToolResultBlock i c e)
    then show ?thesis using Cons by simp
  qed
qed

lemma callLLM_Inr:
  assumes "callLLM client ag = (Inr response, ag1)"
  shows "client (apiCalls ag) = Inr response" and "apiCalls ag1 = Suc (apiCalls ag)"
    and "callsMade ag1 = callsMade ag + 1" and "maxCalls ag1 = maxCalls ag"
  using assms by (auto simp add: callLLM_def split: if_splits sum.splits)

lemma callLLM_Inl:
  assumes "callLLM client ag = (Inl e, ag1)"
  shows "apiCalls ag1 \<le> Suc (apiCalls ag)"
  using assms by (auto simp add: callLLM_def split: if_splits sum.splits)

lemma callLLM_ok:
  assumes "callsMade ag < maxCalls ag" and "client (apiCalls ag) = Inr response"
  shows "fst (callLLM client ag) = Inr response"
  using assms by (simp add: callLLM_def)

text \<open>One turn of the loop, with the results of its calls named.\<close>

lemma runLoop_exhausted:
  "\<not> iterations < maxIterations \<Longrightarrow>
     runLoop client handler iterations ag messages =
       (Inl (createError AGENT_LOOP_DETECTED ''Max iterations (50) exceeded''), ag)"
  by (simp add: runLoop.simps [of client handler iterations])

lemma runLoop_call_fails:
  "iterations < maxIterations \<Longrightarrow>
   callLLM client (ag\<lparr>iterationsUsed := int (Suc iterations)\<rparr>) = (Inl e, ag1) \<Longrightarrow>
     runLoop client handler iterations ag messages = (Inl e, ag1)"
  by (simp add: runLoop.simps [of client handler iterations])

lemma runLoop_turn:
  "iterations < maxIterations \<Longrightarrow>
   callLLM client (ag\<lparr>iterationsUsed := int (Suc iterations)\<rparr>) = (Inr response, ag1) \<Longrightarrow>
   processBlocks handler ag1 (resp_content response) = ((ac, tr, tx), ag2) \<Longrightarrow>
     runLoop client handler iterations ag messages =
       (if tr \<noteq> [] then
          runLoop client handler (Suc iterations) ag2
            (messages @ [\<lparr> msg_role = Assistant, msg_content = Blocks ac \<rparr>,
                         \<lparr> msg_role = User, msg_content = Blocks tr \<rparr>])
        else if resp_stopReason response = end_turn then
          (Inr (messages @ [\<lparr> msg_role = Assistant, msg_content = Blocks ac \<rparr>], tx), ag2)
        else
          runLoop client handler (Suc iterations) ag2
            (messages @ [\<lparr> msg_role = Assistant, msg_content = Blocks ac \<rparr>]))"
  by (simp add: runLoop.simps [of client handler iterations])

lemma runLoop_turn_cases:
  assumes "iterations < maxIterations"
  obtains
    (fails) e ag1 where "callLLM client (ag\<lparr>iterationsUsed := int (Suc iterations)\<rparr>) = (Inl e, ag1)"
      and "runLoop client handler iterations ag messages = (Inl e, ag1)"
  | (ends) response ag1 ag2 ms where
      "callLLM client (ag\<lparr>iterationsUsed := int (Suc iterations)\<rparr>) = (Inr response, ag1)"
      and "endsLoop response" and "apiCalls ag2 = apiCalls ag1"
      and "runLoop client handler iterations ag messages = (Inr (ms, responseText response), ag2)"
  | (continues) response ag1 ag2 ms where
      "callLLM client (ag\<lparr>iterationsUsed := int (Suc iterations)\<rparr>) = (Inr response, ag1)"
      and "\<not> endsLoop response" and "apiCalls ag2 = apiCalls ag1"
      and "callsMade ag2 = callsMade ag1" and "maxCalls ag2 = maxCalls ag1"
      and "runLoop client handler iterations ag messages =
             runLoop client handler (Suc iterations) ag2 ms"
proof -
  let ?ag0 = "ag\<lparr>iterationsUsed := int (Suc iterations)\<rparr>"
  obtain res ag1 where call: "callLLM client ?ag0 = (res, ag1)" by (cases "callLLM client ?ag0")
  show thesis
  proof (cases res)
    case (Inl e)
    with call runLoop_call_fails [OF assms] fails show ?thesis by blast
  next
    case (Inr response)
    obtain ac tr tx ag2 where pb: "processBlocks handler ag1 (resp_content response) = ((ac, tr, tx), ag2)"
      by (metis prod_cases3 surj_pair)
    have cnt: "apiCalls ag2 = apiCalls ag1" "callsMade ag2 = callsMade ag1" "maxCalls ag2 = maxCalls ag1"
      using processBlocks_counters [of handler ag1 "resp_content response"] pb by simp_all
    have tr: "tr \<noteq> [] \<longleftrightarrow> list_ex isToolUse (resp_content response)"
      using processBlocks_toolResults [of handler ag1 "resp_content response"] pb by simp
    have tx: "tx = responseText response"
      using processBlocks_text [of handler ag1 "resp_content response"] pb
      by (simp add: responseText_def)
    note turn = runLoop_turn [OF assms call [unfolded Inr] pb, of messages]
    show ?thesis
    proof (cases "endsLoop response")
      case True
      then have "tr = []" and "resp_stopReason response = end_turn"
        using tr by (simp_all add: endsLoop_def)
      with turn tx have "runLoop client handler iterations ag messages =
          (Inr (messages @ [\<lparr> msg_role = Assistant, msg_content = Blocks ac \<rparr>], responseText response), ag2)"
        by simp
      with ends call Inr True cnt show ?thesis by blast
    next
      case False
      then have "tr \<noteq> [] \<or> resp_stopReason response \<noteq> end_turn"
        using tr by (auto simp add: endsLoop_def)
      with turn have "\<exists>ms. runLoop client handler iterations ag messages =
             runLoop client handler (Suc iterations) ag2 ms"
        by auto
      with continues call Inr False cnt show ?thesis by blast
    qed
  qed
qed

lemma runLoop_apiCalls_le:
  "maxIterations - iterations = n \<Longrightarrow>
     apiCalls (snd (runLoop client handler iterations ag messages)) \<le> apiCalls ag + n"
proof (induction n arbitrary: iterations ag messages)
  case 0
  then have "\<not> iterations < maxIterations" by simp
  then show ?case by (simp add: runLoop_exhausted)
next
  case (Suc n)
  then have lt: "iterations < maxIterations" and n: "maxIterations - Suc iterations = n" by simp_all
  from lt show ?case
  proof (cases rule: runLoop_turn_cases [where client = client and handler = handler and ag = ag and messages = messages])
    case (fails e ag1)
    then show ?thesis using callLLM_Inl [OF fails(1)] by simp
  next
    case (ends response ag1 ag2 ms)
    then show ?thesis using callLLM_Inr(2) [OF ends(1)] by simp
  next
    case (continues response ag1 ag2 ms)
    then show ?thesis
      using callLLM_Inr(2) [OF continues(1)] Suc.IH [OF n, of ag2 ms] by simp
  qed
qed

lemma runLoop_success:
  "maxIterations - iterations = n \<Longrightarrow>
   fst (runLoop client handler iterations ag messages) = Inr (ms, final) \<Longrightarrow>
     \<exists>k r. k < n \<and> client (apiCalls ag + k) = Inr r \<and> endsLoop r \<and> final = responseText r \<and>
           apiCalls (snd (runLoop client handler iterations ag messages)) = apiCalls ag + k + 1"
proof (induction n arbitrary: iterations ag messages)
  case 0
  then have "\<not> iterations < maxIterations" by simp
  with "0.prems"(2) show ?case by (simp add: runLoop_exhausted)
next
  case (Suc n)
  then have lt: "iterations < maxIterations" and n: "maxIterations - Suc iterations = n" by simp_all
  from lt show ?case
  proof (cases rule: runLoop_turn_cases [where client = client and handler = handler and ag = ag and messages = messages])
    case (fails e ag1)
    with Suc.prems(2) show ?thesis by simp
  next
    case (ends response ag1 ag2 ms')
    have "client (apiCalls ag + 0) = Inr response" using callLLM_Inr(1) [OF ends(1)] by simp
    moreover have "final = responseText response" using ends(4) Suc.prems(2) by simp
    moreover have "apiCalls (snd (runLoop client handler iterations ag messages)) = apiCalls ag + 0 + 1"
      using ends callLLM_Inr(2) [OF ends(1)] by simp
    ultimately show ?thesis using ends(2) by blast
  next
    case (continues response ag1 ag2 ms')
    have a: "apiCalls ag2 = Suc (apiCalls ag)"
      using continues(3) callLLM_Inr(2) [OF continues(1)] by simp
    from Suc.prems(2) continues(6)
    have "fst (runLoop client handler (Suc iterations) ag2 ms') = Inr (ms, final)" by simp
    from Suc.IH [OF n this] obtain k r where
      "k < n" "client (apiCalls ag2 + k) = Inr r" "endsLoop r" "final = responseText r"
      "apiCalls (snd (runLoop client handler (Suc iterations) ag2 ms')) = apiCalls ag2 + k + 1"
      by blast
    then have "Suc k < Suc n \<and> client (apiCalls ag + Suc k) = Inr r \<and> endsLoop r \<and>
        final = responseText r \<and>
        apiCalls (snd (runLoop client handler iterations ag messages)) = apiCalls ag + Suc k + 1"
      using a continues(6) by simp
    then show ?thesis by blast
  qed
qed

lemma runLoop_ceiling:
  "maxIterations - iterations = n \<Longrightarrow>
   callsMade ag + int n \<le> maxCalls ag \<Longrightarrow>
   \<forall>k<n. \<exists>r. client (apiCalls ag + k) = Inr r \<and> \<not> endsLoop r \<Longrightarrow>
     map_sum ae_code id (fst (runLoop client handler iterations ag messages)) = Inl AGENT_LOOP_DETECTED \<and>
     apiCalls (snd (runLoop client handler iterations ag messages)) = apiCalls ag + n"
proof (induction n arbitrary: iterations ag messages)
  case 0
  then have "\<not> iterations < maxIterations" by simp
  then show ?case by (simp add: runLoop_exhausted createError_def)
next
  case (Suc n)
  then have lt: "iterations < maxIterations" and n: "maxIterations - Suc iterations = n" by simp_all
  let ?ag0 = "ag\<lparr>iterationsUsed := int (Suc iterations)\<rparr>"
  from Suc.prems(3) obtain r0 where r0: "client (apiCalls ag) = Inr r0" "\<not> endsLoop r0"
    by force
  have ok: "fst (callLLM client ?ag0) = Inr r0"
    using Suc.prems(2) r0 by (intro callLLM_ok) simp_all
  from lt show ?case
  proof (cases rule: runLoop_turn_cases [where client = client and handler = handler and ag = ag and messages = messages])
    case (fails e ag1)
    with ok show ?thesis by simp
  next
    case (ends response ag1 ag2 ms)
    with ok r0 show ?thesis by simp
  next
    case (continues response ag1 ag2 ms)
    have a: "apiCalls ag2 = Suc (apiCalls ag)"
      using continues(3) callLLM_Inr(2) [OF continues(1)] by simp
    have b: "callsMade ag2 + int n \<le> maxCalls ag2"
      using continues(4,5) callLLM_Inr(3,4) [OF continues(1)] Suc.prems(2) by simp
    have c: "\<forall>k<n. \<exists>r. client (apiCalls ag2 + k) = Inr r \<and> \<not> endsLoop r"
    proof (intro allI impI)
      fix k assume "k < n"
      then have "Suc k < Suc n" by simp
      with Suc.prems(3) have "\<exists>r. client (apiCalls ag + Suc k) = Inr r \<and> \<not> endsLoop r" by blast
      then show "\<exists>r. client (apiCalls ag2 + k) = Inr r \<and> \<not> endsLoop r" using a by simp
    qed
    from Suc.IH [OF n b c, of ms] continues(6) a show ?thesis by simp
  qed
qed

text \<open>
  The turns before the one that decides the run: as long as the budget admits a call and
  the response does not end the loop, the loop goes on with one more call made and
  counted.
\<close>

lemma runLoop_prefix:
  assumes "iterations + j \<le> maxIterations"
    and "\<forall>k<j. (\<exists>r. client (apiCalls ag + k) = Inr r \<and> \<not> endsLoop r) \<and>
               callsMade ag + int k < maxCalls ag"
  shows "\<exists>ag' ms'. runLoop client handler iterations ag messages =
             runLoop client handler (iterations + j) ag' ms' \<and>
           apiCalls ag' = apiCalls ag + j \<and> callsMade ag' = callsMade ag + int j \<and>
           maxCalls ag' = maxCalls ag"
  using assms
proof (induction j arbitrary: iterations ag messages)
  case 0
  then show ?case by auto
next
  case (Suc j)
  then have lt: "iterations < maxIterations" by simp
  from Suc.prems(2) obtain r0 where r0: "client (apiCalls ag) = Inr r0" "\<not> endsLoop r0"
    and b0: "callsMade ag < maxCalls ag"
    by force
  let ?ag0 = "ag\<lparr>iterationsUsed := int (Suc iterations)\<rparr>"
  have ok: "fst (callLLM client ?ag0) = Inr r0"
    using b0 r0 by (intro callLLM_ok) simp_all
  from lt show ?case
  proof (cases rule: runLoop_turn_cases [where client = client and handler = handler and ag = ag and messages = messages])
    case (fails e ag1)
    with ok show ?thesis by simp
  next
    case (ends response ag1 ag2 ms)
    with ok r0 show ?thesis by simp
  next
    case (continues response ag1 ag2 ms)
    have a: "apiCalls ag2 = Suc (apiCalls ag)"
      using continues(3) callLLM_Inr(2) [OF continues(1)] by simp
    have b: "callsMade ag2 = callsMade ag + 1" "maxCalls ag2 = maxCalls ag"
      using continues(4,5) callLLM_Inr(3,4) [OF continues(1)] by simp_all
    have c: "\<forall>k<j. (\<exists>r. client (apiCalls ag2 + k) = Inr r \<and> \<not> endsLoop r) \<and>
               callsMade ag2 + int k < maxCalls ag2"
    proof (intro allI impI)
      fix k assume "k < j"
      then have "Suc k < Suc j" by simp
      with Suc.prems(2) have "(\<exists>r. client (apiCalls ag + Suc k) = Inr r \<and> \<not> endsLoop r) \<and>
               callsMade ag + int (Suc k) < maxCalls ag" by blast
      then show "(\<exists>r. client (apiCalls ag2 + k) = Inr r \<and> \<not> endsLoop r) \<and>
               callsMade ag2 + int k < maxCalls ag2"
        using a b by simp
    qed
    have d: "Suc iterations + j \<le> maxIterations" using Suc.prems(1) by simp
    from Suc.IH [OF d c, of ms] obtain ag' ms' where
      "runLoop client handler (Suc iterations) ag2 ms = runLoop client handler (Suc iterations + j) ag' ms'"
      "apiCalls ag' = apiCalls ag2 + j" "callsMade ag' = callsMade ag2 + int j"
      "maxCalls ag' = maxCalls ag2"
      by blast
    with continues(6) a b have
      "runLoop client handler iterations ag messages = runLoop client handler (iterations + Suc j) ag' ms' \<and>
       apiCalls ag' = apiCalls ag + Suc j \<and> callsMade ag' = callsMade ag + int (Suc j) \<and>
       maxCalls ag' = maxCalls ag"
      by simp
    then show ?thesis by blast
  qed
qed

text \<open>The three ways in which one turn ends the run.\<close>

lemma runLoop_budget_exceeded:
  assumes "iterations < maxIterations" and "maxCalls ag \<le> callsMade ag"
  shows "fst (runLoop client handler iterations ag messages) =
           Inl (createError AGENT_BUDGET_EXCEEDED ''Max calls exceeded'') \<and>
         apiCalls (snd (runLoop client handler iterations ag messages)) = apiCalls ag"
proof -
  have "callLLM client (ag\<lparr>iterationsUsed := int (Suc iterations)\<rparr>) =
      (Inl (createError AGENT_BUDGET_EXCEEDED ''Max calls exceeded''),
       ag\<lparr>iterationsUsed := int (Suc iterations)\<rparr>)"
    using assms(2) by (simp add: callLLM_def)
  from runLoop_call_fails [OF assms(1) this] show ?thesis by simp
qed

lemma runLoop_api_error:
  assumes "iterations < maxIterations" and "callsMade ag < maxCalls ag"
    and "client (apiCalls ag) = Inl m"
  shows "fst (runLoop client handler iterations ag messages) = Inl (createError LLM_API_ERROR m) \<and>
         apiCalls (snd (runLoop client handler iterations ag messages)) = apiCalls ag + 1"
proof -
  have "callLLM client (ag\<lparr>iterationsUsed := int (Suc iterations)\<rparr>) =
      (Inl (createError LLM_API_ERROR m),
       ag\<lparr>iterationsUsed := int (Suc iterations), apiCalls := Suc (apiCalls ag)\<rparr>)"
    using assms(2,3) by (simp add: callLLM_def)
  from runLoop_call_fails [OF assms(1) this] show ?thesis by simp
qed

lemma runLoop_ends:
  assumes "iterations < maxIterations" and "callsMade ag < maxCalls ag"
    and "client (apiCalls ag) = Inr r" and "endsLoop r"
  shows "\<exists>ms. fst (runLoop client handler iterations ag messages) = Inr (ms, responseText r) \<and>
         apiCalls (snd (runLoop client handler iterations ag messages)) = apiCalls ag + 1"
proof -
  let ?ag0 = "ag\<lparr>iterationsUsed := int (Suc iterations)\<rparr>"
  have ok: "fst (callLLM client ?ag0) = Inr r"
    using assms(2,3) by (intro callLLM_ok) simp_all
  from assms(1) show ?thesis
  proof (cases rule: runLoop_turn_cases [where client = client and handler = handler and ag = ag and messages = messages])
    case (fails e ag1)
    with ok show ?thesis by simp
  next
    case (ends response ag1 ag2 ms)
    with ok have "response = r" by simp
    with ends callLLM_Inr(2) [OF ends(1)] show ?thesis by simp
  next
    case (continues response ag1 ag2 ms)
    with ok assms(4) show ?thesis by simp
  qed
qed

lemma runLoop_outcomes:
  assumes "j < maxIterations"
    and "\<forall>k<j. (\<exists>r. client (apiCalls ag + k) = Inr r \<and> \<not> endsLoop r) \<and>
               callsMade ag + int k < maxCalls ag"
  shows "maxCalls ag \<le> callsMade ag + int j \<Longrightarrow>
           fst (runLoop client handler 0 ag messages) =
             Inl (createError AGENT_BUDGET_EXCEEDED ''Max calls exceeded'') \<and>
           apiCalls (snd (runLoop client handler 0 ag messages)) = apiCalls ag + j"
    and "callsMade ag + int j < maxCalls ag \<Longrightarrow> client (apiCalls ag + j) = Inl m \<Longrightarrow>
           fst (runLoop client handler 0 ag messages) = Inl (createError LLM_API_ERROR m) \<and>
           apiCalls (snd (runLoop client handler 0 ag messages)) = apiCalls ag + j + 1"
    and "callsMade ag + int j < maxCalls ag \<Longrightarrow> client (apiCalls ag + j) = Inr r \<Longrightarrow> endsLoop r \<Longrightarrow>
           \<exists>ms. fst (runLoop client handler 0 ag messages) = Inr (ms, responseText r) \<and>
           apiCalls (snd (runLoop client handler 0 ag messages)) = apiCalls ag + j + 1"
proof -
  have le: "0 + j \<le> maxIterations" using assms(1) by simp
  from runLoop_prefix [OF le assms(2), of handler messages] obtain ag' ms' where
    e: "runLoop client handler 0 ag messages = runLoop client handler j ag' ms'"
    and a: "apiCalls ag' = apiCalls ag + j" and c: "callsMade ag' = callsMade ag + int j"
    and m: "maxCalls ag' = maxCalls ag"
    by auto
  show "maxCalls ag \<le> callsMade ag + int j \<Longrightarrow>
           fst (runLoop client handler 0 ag messages) =
             Inl (createError AGENT_BUDGET_EXCEEDED ''Max calls exceeded'') \<and>
           apiCalls (snd (runLoop client handler 0 ag messages)) = apiCalls ag + j"
    using runLoop_budget_exceeded [OF assms(1), of ag' client handler ms'] e a c m by simp
  show "callsMade ag + int j < maxCalls ag \<Longrightarrow> client (apiCalls ag + j) = Inl m \<Longrightarrow>
           fst (runLoop client handler 0 ag messages) = Inl (createError LLM_API_ERROR m) \<and>
           apiCalls (snd (runLoop client handler 0 ag messages)) = apiCalls ag + j + 1"
    using runLoop_api_error [OF assms(1), of ag' client m handler ms'] e a c m by simp
  show "callsMade ag + int j < maxCalls ag \<Longrightarrow> client (apiCalls ag + j) = Inr r \<Longrightarrow> endsLoop r \<Longrightarrow>
           \<exists>ms. fst (runLoop client handler 0 ag messages) = Inr (ms, responseText r) \<and>
           apiCalls (snd (runLoop client handler 0 ag messages)) = apiCalls ag + j + 1"
    using runLoop_ends [OF assms(1), of ag' client r handler ms'] e a c m by simp
qed

text \<open>
  Claim C4 says that a run which does not end on a response without tool calls and with
  stop reason \<open>end_turn\<close> raises \<open>AGENT_LOOP_DETECTED\<close>. \<open>callLLM\<close> checks the call budget of
  the agent before every call: with a budget of one call and a model that asks for a
  tool every time, the run makes one call and raises \<open>AGENT_BUDGET_EXCEEDED\<close>. An error
  of the API ends the run with \<open>LLM_API_ERROR\<close> in the same way.
\<close>

theorem agent_loop_detected_counterexample:
  "\<not> endsLoop tool_response \<and>
   map_sum ae_code id (fst (runAgentLoop always_tool_use tool_ok (sample_agent 1) []))
     = Inl AGENT_BUDGET_EXCEEDED \<and>
   apiCalls (snd (runAgentLoop always_tool_use tool_ok (sample_agent 1) [])) = 1 \<and>
   map_sum ae_code id (fst (runAgentLoop api_down tool_ok (sample_agent 60) []))
     = Inl LLM_API_ERROR \<and>
   apiCalls (snd (runAgentLoop api_down tool_ok (sample_agent 60) [])) = 1"
  by (simp add: runAgentLoop_def runLoop.simps maxIterations_def callLLM_def always_tool_use_def
      api_down_def tool_response_def sample_agent_def tool_ok_def executeTool_def endsLoop_def
      createError_def)

text \<open>
  Claim C4, amended: for every sequence of model responses, \<open>runAgentLoop\<close> makes at most
  50 language-model calls. It returns successfully only on a response without tool
  calls and with stop reason \<open>end_turn\<close>, and then the text it returns is the text of that
  one response, never text accumulated over earlier turns. When the call budget of the
  agent admits 50 more calls and each of the 50 calls returns a response that does not
  end the loop, it raises \<open>AGENT_LOOP_DETECTED\<close> after exactly 50 calls. Otherwise the
  first of the 50 turns that does not go on decides, the \<open>j + 1\<close>-th turn after \<open>j\<close> calls
  that were within the budget and returned a response that does not end the loop: when
  the budget admits no further call, \<open>AGENT_BUDGET_EXCEEDED\<close> is raised after \<open>j\<close> calls;
  when the call throws, \<open>LLM_API_ERROR\<close> is raised with the message of the API error
  after \<open>j + 1\<close> calls; when the response ends the loop, its text is returned after
  \<open>j + 1\<close> calls.
\<close>

theorem agent_loop_bounded:
  "apiCalls (snd (runAgentLoop client handler ag initialMessages)) \<le> apiCalls ag + 50 \<and>
   (\<forall>ms final. fst (runAgentLoop client handler ag initialMessages) = Inr (ms, final) \<longrightarrow>
      (\<exists>k r. k < 50 \<and> client (apiCalls ag + k) = Inr r \<and> endsLoop r \<and> final = responseText r \<and>
             apiCalls (snd (runAgentLoop client handler ag initialMessages)) = apiCalls ag + k + 1)) \<and>
   (callsMade ag + 50 \<le> maxCalls ag \<and>
    (\<forall>k<50. \<exists>r. client (apiCalls ag + k) = Inr r \<and> \<not> endsLoop r) \<longrightarrow>
      map_sum ae_code id (fst (runAgentLoop client handler ag initialMessages))
        = Inl AGENT_LOOP_DETECTED \<and>
      apiCalls (snd (runAgentLoop client handler ag initialMessages)) = apiCalls ag + 50) \<and>
   (\<forall>j<50.
      (\<forall>k<j. (\<exists>r. client (apiCalls ag + k) = Inr r \<and> \<not> endsLoop r) \<and>
              callsMade ag + int k < maxCalls ag) \<longrightarrow>
      (maxCalls ag \<le> callsMade ag + int j \<longrightarrow>
         map_sum ae_code id (fst (runAgentLoop client handler ag initialMessages)) =
           Inl AGENT_BUDGET_EXCEEDED \<and>
         apiCalls (snd (runAgentLoop client handler ag initialMessages)) = apiCalls ag + j) \<and>
      (callsMade ag + int j < maxCalls ag \<longrightarrow>
         (case client (apiCalls ag + j) of
            Inl m \<Rightarrow>
              fst (runAgentLoop client handler ag initialMessages) =
                Inl \<lparr> ae_code = LLM_API_ERROR, ae_message = m, ae_recoverable = True \<rparr> \<and>
              apiCalls (snd (runAgentLoop client handler ag initialMessages)) = apiCalls ag + j + 1
          | Inr r \<Rightarrow>
              endsLoop r \<longrightarrow>
                (\<exists>ms. fst (runAgentLoop client handler ag initialMessages) = Inr (ms, responseText r)) \<and>
                apiCalls (snd (runAgentLoop client handler ag initialMessages)) = apiCalls ag + j + 1)))"
proof -
  have n: "maxIterations - 0 = 50" by (simp add: maxIterations_def)
  have first: "apiCalls (snd (runAgentLoop client handler ag initialMessages)) \<le> apiCalls ag + 50 \<and>
   (\<forall>ms final. fst (runAgentLoop client handler ag initialMessages) = Inr (ms, final) \<longrightarrow>
      (\<exists>k r. k < 50 \<and> client (apiCalls ag + k) = Inr r \<and> endsLoop r \<and> final = responseText r \<and>
             apiCalls (snd (runAgentLoop client handler ag initialMessages)) = apiCalls ag + k + 1)) \<and>
   (callsMade ag + 50 \<le> maxCalls ag \<and>
    (\<forall>k<50. \<exists>r. client (apiCalls ag + k) = Inr r \<and> \<not> endsLoop r) \<longrightarrow>
      map_sum ae_code id (fst (runAgentLoop client handler ag initialMessages))
        = Inl AGENT_LOOP_DETECTED \<and>
      apiCalls (snd (runAgentLoop client handler ag initialMessages)) = apiCalls ag + 50)"
    unfolding runAgentLoop_def
    using runLoop_apiCalls_le [OF n, of client handler ag initialMessages]
      runLoop_success [OF n, of client handler ag initialMessages]
      runLoop_ceiling [OF n, of ag client handler initialMessages]
    by auto
  have rest: "(maxCalls ag \<le> callsMade ag + int j \<longrightarrow>
         map_sum ae_code id (fst (runAgentLoop client handler ag initialMessages)) =
           Inl AGENT_BUDGET_EXCEEDED \<and>
         apiCalls (snd (runAgentLoop client handler ag initialMessages)) = apiCalls ag + j) \<and>
      (callsMade ag + int j < maxCalls ag \<longrightarrow>
         (case client (apiCalls ag + j) of
            Inl m \<Rightarrow>
              fst (runAgentLoop client handler ag initialMessages) =
                Inl \<lparr> ae_code = LLM_API_ERROR, ae_message = m, ae_recoverable = True \<rparr> \<and>
              apiCalls (snd (runAgentLoop client handler ag initialMessages)) = apiCalls ag + j + 1
          | Inr r \<Rightarrow>
              endsLoop r \<longrightarrow>
                (\<exists>ms. fst (runAgentLoop client handler ag initialMessages) = Inr (ms, responseText r)) \<and>
                apiCalls (snd (runAgentLoop client handler ag initialMessages)) = apiCalls ag + j + 1))"
    if j: "j < 50"
      and pre: "\<forall>k<j. (\<exists>r. client (apiCalls ag + k) = Inr r \<and> \<not> endsLoop r) \<and>
              callsMade ag + int k < maxCalls ag"
    for j
  proof -
    have jm: "j < maxIterations" using j by (simp add: maxIterations_def)
    note o = runLoop_outcomes [OF jm pre, where handler = handler and messages = initialMessages]
    show ?thesis
    proof (cases "client (apiCalls ag + j)")
      case (Inl m)
      with o(1) o(2) [of m] show ?thesis
        by (simp add: runAgentLoop_def createError_def)
    next
      case (Inr r)
      with o(1) o(3) [of r] show ?thesis
        by (auto simp add: runAgentLoop_def createError_def)
    qed
  qed
  from first rest show ?thesis by blast
qed

theorem agent_loop_bounded_witness:
  "callsMade (sample_agent 60) + 50 \<le> maxCalls (sample_agent 60) \<and>
   always_tool_use 49 = Inr tool_response \<and> \<not> endsLoop tool_response \<and>
   map_sum ae_code id (fst (runAgentLoop always_tool_use tool_ok (sample_agent 60) []))
     = Inl AGENT_LOOP_DETECTED \<and>
   apiCalls (snd (runAgentLoop always_tool_use tool_ok (sample_agent 60) [])) = 50 \<and>
   map_sum id snd (fst (runAgentLoop done_on_second_call tool_ok (sample_agent 60) []))
     = Inr ''done'' \<and>
   apiCalls (snd (runAgentLoop done_on_second_call tool_ok (sample_agent 60) [])) = 2 \<and>
   callsMade (sample_agent 3) + 2 < maxCalls (sample_agent 3) \<and>
   maxCalls (sample_agent 3) \<le> callsMade (sample_agent 3) + 3 \<and>
   map_sum ae_code id (fst (runAgentLoop always_tool_use tool_ok (sample_agent 3) [])) =
     Inl AGENT_BUDGET_EXCEEDED \<and>
   apiCalls (snd (runAgentLoop always_tool_use tool_ok (sample_agent 3) [])) = 3 \<and>
   fails_on_third_call 2 = Inl ''overloaded'' \<and>
   fst (runAgentLoop fails_on_third_call tool_ok (sample_agent 60) []) =
     Inl \<lparr> ae_code = LLM_API_ERROR, ae_message = ''overloaded'', ae_recoverable = True \<rparr> \<and>
   apiCalls (snd (runAgentLoop fails_on_third_call tool_ok (sample_agent 60) [])) = 3"
proof -
  have b: "callsMade (sample_agent 60) + 50 \<le> maxCalls (sample_agent 60)"
    by (simp add: sample_agent_def)
  have ne: "\<not> endsLoop tool_response" by (simp add: endsLoop_def tool_response_def)
  then have all: "\<forall>k<50. \<exists>r. always_tool_use (apiCalls (sample_agent 60) + k) = Inr r \<and> \<not> endsLoop r"
    by (simp add: always_tool_use_def)
  have a0: "apiCalls (sample_agent n) = 0" "callsMade (sample_agent n) = 0"
    "maxCalls (sample_agent n) = n" for n
    by (simp_all add: sample_agent_def)
  have d: "map_sum id snd (fst (runAgentLoop done_on_second_call tool_ok (sample_agent 60) []))
       = Inr ''done'' \<and>
     apiCalls (snd (runAgentLoop done_on_second_call tool_ok (sample_agent 60) [])) = 2"
    by (simp add: runAgentLoop_def runLoop.simps maxIterations_def callLLM_def
        done_on_second_call_def tool_response_def final_response_def sample_agent_def tool_ok_def
        executeTool_def)
  have pre3: "\<forall>k<3. (\<exists>r. always_tool_use (apiCalls (sample_agent 3) + k) = Inr r \<and> \<not> endsLoop r) \<and>
      callsMade (sample_agent 3) + int k < maxCalls (sample_agent 3)"
    using ne by (simp add: always_tool_use_def a0)
  have f: "fails_on_third_call 2 = Inl ''overloaded''"
    and f': "fails_on_third_call (Suc (Suc 0)) = Inl ''overloaded''"
    by (simp_all add: fails_on_third_call_def)
  have pre2: "\<forall>k<2. (\<exists>r. fails_on_third_call (apiCalls (sample_agent 60) + k) = Inr r \<and> \<not> endsLoop r) \<and>
      callsMade (sample_agent 60) + int k < maxCalls (sample_agent 60)"
    using ne by (simp add: fails_on_third_call_def a0)
  note w1 = agent_loop_bounded [of always_tool_use tool_ok "sample_agent 60" "[]"]
  note w2 = agent_loop_bounded [of always_tool_use tool_ok "sample_agent 3" "[]"]
  note w3 = agent_loop_bounded [of fails_on_third_call tool_ok "sample_agent 60" "[]"]
  have c1: "map_sum ae_code id (fst (runAgentLoop always_tool_use tool_ok (sample_agent 60) []))
       = Inl AGENT_LOOP_DETECTED \<and>
     apiCalls (snd (runAgentLoop always_tool_use tool_ok (sample_agent 60) [])) = 50"
    using w1 b all a0 by simp
  have c2: "map_sum ae_code id (fst (runAgentLoop always_tool_use tool_ok (sample_agent 3) [])) =
       Inl AGENT_BUDGET_EXCEEDED \<and>
     apiCalls (snd (runAgentLoop always_tool_use tool_ok (sample_agent 3) [])) = 3"
  proof -
    from w2 have "(\<forall>k<3. (\<exists>r. always_tool_use (apiCalls (sample_agent 3) + k) = Inr r \<and> \<not> endsLoop r) \<and>
              callsMade (sample_agent 3) + int k < maxCalls (sample_agent 3)) \<longrightarrow>
      (maxCalls (sample_agent 3) \<le> callsMade (sample_agent 3) + int 3 \<longrightarrow>
         map_sum ae_code id (fst (runAgentLoop always_tool_use tool_ok (sample_agent 3) [])) =
           Inl AGENT_BUDGET_EXCEEDED \<and>
         apiCalls (snd (runAgentLoop always_tool_use tool_ok (sample_agent 3) []))
           = apiCalls (sample_agent 3) + 3)"
      by (elim conjE allE [where x = "3::nat"]) simp
    with pre3 show ?thesis by (simp add: a0)
  qed
  have c3: "fst (runAgentLoop fails_on_third_call tool_ok (sample_agent 60) []) =
       Inl \<lparr> ae_code = LLM_API_ERROR, ae_message = ''overloaded'', ae_recoverable = True \<rparr> \<and>
     apiCalls (snd (runAgentLoop fails_on_third_call tool_ok (sample_agent 60) [])) = 3"
  proof -
    from w3 have "(\<forall>k<2. (\<exists>r. fails_on_third_call (apiCalls (sample_agent 60) + k) = Inr r \<and> \<not> endsLoop r) \<and>
              callsMade (sample_agent 60) + int k < maxCalls (sample_agent 60)) \<longrightarrow>
      (callsMade (sample_agent 60) + int 2 < maxCalls (sample_agent 60) \<longrightarrow>
         (case fails_on_third_call (apiCalls (sample_agent 60) + 2) of
            Inl m \<Rightarrow>
              fst (runAgentLoop fails_on_third_call tool_ok (sample_agent 60) []) =
                Inl \<lparr> ae_code = LLM_API_ERROR, ae_message = m, ae_recoverable = True \<rparr> \<and>
              apiCalls (snd (runAgentLoop fails_on_third_call tool_ok (sample_agent 60) []))
                = apiCalls (sample_agent 60) + 2 + 1
          | Inr r \<Rightarrow> endsLoop r \<longrightarrow>
                (\<exists>ms. fst (runAgentLoop fails_on_third_call tool_ok (sample_agent 60) [])
                   = Inr (ms, responseText r)) \<and>
                apiCalls (snd (runAgentLoop fails_on_third_call tool_ok (sample_agent 60) []))
                  = apiCalls (sample_agent 60) + 2 + 1))"
      by (elim conjE allE [where x = "2::nat"]) simp
    with pre2 f f' show ?thesis by (simp add: a0)
  qed
  from b ne c1 c2 c3 d f show ?thesis by (simp add: always_tool_use_def a0)
qed

section \<open>Properties of the n8n callback route\<close>

lemma duplicate_delivery_noop_step:
  assumes "acceptedDelivery hmacSha256Hex parse webhookSecret db signature rawBody payload task"
  shows "task_status task \<noteq> ''in_progress'' \<longrightarrow>
           snd (POST hmacSha256Hex parse webhookSecret now db signature rawBody) = db"
  using assms
  by (auto simp add: acceptedDelivery_def POST_def Let_def split: option.splits)

lemma duplicate_delivery_response:
  assumes "acceptedDelivery hmacSha256Hex parse webhookSecret db signature rawBody payload task"
    and "task_status task \<noteq> ''in_progress''"
  shows "fst (POST hmacSha256Hex parse webhookSecret now db signature rawBody) =
           \<lparr> http_status = 200, body_success = True,
             body_text = ''Task already completed or cancelled'',
             body_currentStatus = Some (task_status task) \<rparr>"
  using assms
  by (auto simp add: acceptedDelivery_def POST_def Let_def split: option.splits)

text \<open>
  Claim C6: a delivery that is authenticated and well-formed for a stored task whose
  status is anything other than \<open>in_progress\<close> is answered with HTTP 200 and
  \<open>success: true\<close>, and the backend is left as it was: no task update, no provider
  metadata, no logged event, no orchestrator resume.
\<close>

theorem duplicate_delivery_noop:
  assumes "acceptedDelivery hmacSha256Hex parse webhookSecret db signature rawBody payload task"
    and "task_status task \<noteq> ''in_progress''"
  shows "POST hmacSha256Hex parse webhookSecret now db signature rawBody =
           (\<lparr> http_status = 200, body_success = True,
              body_text = ''Task already completed or cancelled'',
              body_currentStatus = Some (task_status task) \<rparr>, db)"
  using assms
  by (auto simp add: acceptedDelivery_def POST_def Let_def split: option.splits)

text \<open>
  The first delivery of the sample callback completes the task, logs two events and
  resumes the request.
\<close>

lemma first_delivery_completes:
  "task_status (the (request_tasks backend_after_first ''t1'')) = ''completed'' \<and>
   length (eventLogger backend_after_first) = 2 \<and> resumedRequests backend_after_first = [''r1'']"
  by (simp add: backend_after_first_def POST_def sample_hmac_def sample_parse_def
      sample_payload_def sample_backend_def sample_task_def selectTask_def jsonResponse_def Let_def)

theorem duplicate_delivery_noop_witness:
  "acceptedDelivery sample_hmac sample_parse (Some ''k'') backend_after_first (Some ''kpayload-1'')
     ''payload-1'' sample_payload (the (request_tasks backend_after_first ''t1'')) \<and>
   task_status (the (request_tasks backend_after_first ''t1'')) \<noteq> ''in_progress'' \<and>
   http_status (fst (POST sample_hmac sample_parse (Some ''k'') 200 backend_after_first
      (Some ''kpayload-1'') ''payload-1'')) = 200 \<and>
   body_success (fst (POST sample_hmac sample_parse (Some ''k'') 200 backend_after_first
      (Some ''kpayload-1'') ''payload-1'')) \<and>
   snd (POST sample_hmac sample_parse (Some ''k'') 200 backend_after_first
      (Some ''kpayload-1'') ''payload-1'') = backend_after_first"
proof -
  have a: "acceptedDelivery sample_hmac sample_parse (Some ''k'') backend_after_first
      (Some ''kpayload-1'') ''payload-1'' sample_payload
      (the (request_tasks backend_after_first ''t1''))"
    by (simp add: acceptedDelivery_def backend_after_first_def POST_def sample_hmac_def
        sample_parse_def sample_payload_def sample_backend_def sample_task_def selectTask_def
        jsonResponse_def Let_def)
  have s: "task_status (the (request_tasks backend_after_first ''t1'')) \<noteq> ''in_progress''"
    using first_delivery_completes by simp
  from duplicate_delivery_noop [OF a s, of 200] a s show ?thesis by simp
qed

text \<open>
  Delivering an accepted callback a second time changes nothing, whatever the first
  delivery did: after the first delivery the task is no longer \<open>in_progress\<close>.
\<close>

lemma accepted_in_progress_update:
  assumes "acceptedDelivery hmacSha256Hex parse webhookSecret db signature rawBody payload task"
    and "task_status task = ''in_progress''"
  shows "\<exists>task1. request_tasks (snd (POST hmacSha256Hex parse webhookSecret now db signature rawBody))
             (pl_taskId payload) = Some task1 \<and>
           task_request_id task1 = pl_requestId payload \<and> task_status task1 \<noteq> ''in_progress''"
proof -
  from assms(1) obtain secret where f:
    "webhookSecret = Some secret" "secret \<noteq> []" "signature = Some (hmacSha256Hex secret rawBody)"
    "hmacSha256Hex secret rawBody \<noteq> []" "parse rawBody = Some payload"
    "pl_requestId payload \<noteq> []" "pl_taskId payload \<noteq> []" "pl_status payload \<noteq> []"
    "selectTask db (pl_taskId payload) (pl_requestId payload) = Some task"
    by (auto simp add: acceptedDelivery_def split: option.splits)
  from f(9) have r: "task_request_id task = pl_requestId payload"
    by (auto simp add: selectTask_def split: option.splits if_splits)
  show ?thesis
  proof (cases "pl_status payload = ''success''")
    case True
    with f assms(2) r show ?thesis by (simp add: POST_def Let_def)
  next
    case False
    with f assms(2) r show ?thesis by (simp add: POST_def Let_def)
  qed
qed

lemma redelivery_is_noop:
  assumes "acceptedDelivery hmacSha256Hex parse webhookSecret db signature rawBody payload task"
  shows "http_status (fst (POST hmacSha256Hex parse webhookSecret later
           (snd (POST hmacSha256Hex parse webhookSecret now db signature rawBody))
           signature rawBody)) = 200 \<and>
         body_success (fst (POST hmacSha256Hex parse webhookSecret later
           (snd (POST hmacSha256Hex parse webhookSecret now db signature rawBody))
           signature rawBody)) \<and>
         snd (POST hmacSha256Hex parse webhookSecret later
           (snd (POST hmacSha256Hex parse webhookSecret now db signature rawBody))
           signature rawBody)
           = snd (POST hmacSha256Hex parse webhookSecret now db signature rawBody)"
proof -
  let ?db1 = "snd (POST hmacSha256Hex parse webhookSecret now db signature rawBody)"
  have "\<exists>task1. acceptedDelivery hmacSha256Hex parse webhookSecret ?db1 signature rawBody payload task1 \<and>
      task_status task1 \<noteq> ''in_progress''"
  proof (cases "task_status task = ''in_progress''")
    case False
    then have "?db1 = db" using duplicate_delivery_noop_step [OF assms] by simp
    with assms False show ?thesis by auto
  next
    case True
    from accepted_in_progress_update [OF assms True, of now] obtain task1 where
      t: "request_tasks ?db1 (pl_taskId payload) = Some task1"
        "task_request_id task1 = pl_requestId payload" "task_status task1 \<noteq> ''in_progress''"
      by blast
    then have "selectTask ?db1 (pl_taskId payload) (pl_requestId payload) = Some task1"
      by (simp add: selectTask_def)
    with assms have "acceptedDelivery hmacSha256Hex parse webhookSecret ?db1 signature rawBody
        payload task1"
      by (simp add: acceptedDelivery_def)
    with t(3) show ?thesis by blast
  qed
  then obtain task1 where
    a: "acceptedDelivery hmacSha256Hex parse webhookSecret ?db1 signature rawBody payload task1"
    and s: "task_status task1 \<noteq> ''in_progress''" by blast
  have "snd (POST hmacSha256Hex parse webhookSecret later ?db1 signature rawBody) = ?db1"
    using duplicate_delivery_noop_step [OF a] s by simp
  moreover have "http_status (fst (POST hmacSha256Hex parse webhookSecret later ?db1 signature rawBody)) = 200 \<and>
      body_success (fst (POST hmacSha256Hex parse webhookSecret later ?db1 signature rawBody))"
    using duplicate_delivery_response [OF a s] by simp
  ultimately show ?thesis by simp
qed

section \<open>Properties of the response handler\<close>

text \<open>Building the response object throws exactly for \<open>null\<close> and \<open>undefined\<close>.\<close>

lemma responseOf_throws_iff:
  "isl (responseOf response) \<longleftrightarrow> response = Null \<or> response = Undefined"
  by (cases response) (simp_all add: responseOf_def)

lemma settle_maps [simp]:
  "map_of (timers (settle w k xs h)) = (map_of (timers h))(w := None)"
  "map_of (pendingQuestions (settle w k xs h)) = (map_of (pendingQuestions h))(k := None)"
  "resolved (settle w k xs h) = resolved h @ map (Pair w) xs"
  "created (settle w k xs h) = created h"
  by (simp_all add: settle_def delete_conv')










































text \<open>
  Why the key must not have been registered while pending at any earlier time either:
  a timer left over from a double registration closes over the key and takes the entry
  of a later question. The key is registered twice (promises 0 and 1), timer 0 runs and
  resolves promise 0, and the key, which is no longer pending, is registered a third
  time (promise 2). Timer 1 then removes the entry of promise 2 and resolves promise 1,
  and promise 2 is never resolved.
\<close>

lemma stale_timer_takes_later_entry:
  "map_of (pendingQuestions (handler_run newResponseHandler
      [(0, WaitForResponse ''s1'' ''q1'' None), (1, WaitForResponse ''s1'' ''q1'' None),
       (2, TimerFires 0)])) (makeKey ''s1'' ''q1'') = None \<and>
   map fst (resolutionsOf (allTimersFire (handler_run newResponseHandler
      [(0, WaitForResponse ''s1'' ''q1'' None), (1, WaitForResponse ''s1'' ''q1'' None),
       (2, TimerFires 0), (3, WaitForResponse ''s1'' ''q1'' None), (4, TimerFires 1)]) 200000) 1)
     = [ByTimer] \<and>
   resolutionsOf (allTimersFire (handler_run newResponseHandler
      [(0, WaitForResponse ''s1'' ''q1'' None), (1, WaitForResponse ''s1'' ''q1'' None),
       (2, TimerFires 0), (3, WaitForResponse ''s1'' ''q1'' None), (4, TimerFires 1)]) 200000) 2
     = []"
  by (simp add: resolutionsOf_def allTimersFire_def handler_run_def newResponseHandler_def
      waitForResponse_def timerFires_def makeKey_def Let_def)



section \<open>Properties of the binary64 operations\<close>

text \<open>
  Rounding to the nearest integer is off by at most one half; rounding a positive
  quotient to binary64 is off by at most the fraction \<open>2^-53\<close> of it; \<open>mathRound\<close> is
  \<open>floor(x + 1/2)\<close> of the value.
\<close>

lemma roundHalfEven_error:
  assumes "0 < b"
  shows "\<bar>real_of_int (roundHalfEven a b) - real_of_int a / real_of_int b\<bar> \<le> 1 / 2"
proof -
  define q r where "q = a div b" and "r = a mod b"
  have r: "0 \<le> r" "r < b" using assms by (simp_all add: r_def)
  have "a = q * b + r" by (simp add: q_def r_def)
  then have "real_of_int a = real_of_int q * real_of_int b + real_of_int r"
    by (metis of_int_add of_int_mult)
  then have ab: "real_of_int a / real_of_int b = real_of_int q + real_of_int r / real_of_int b"
    using assms by (simp add: field_simps)
  have rb: "0 \<le> real_of_int r / real_of_int b" "real_of_int r / real_of_int b < 1"
    using r assms by simp_all
  consider "2 * r < b" | "2 * r > b" | "2 * r = b" by linarith
  then show ?thesis
  proof cases
    case 1
    then have "real_of_int r / real_of_int b < 1 / 2" using assms by (simp add: field_simps)
    moreover have "roundHalfEven a b = q" using 1 by (simp add: roundHalfEven_def q_def r_def Let_def)
    ultimately show ?thesis using ab rb by simp
  next
    case 2
    then have "real_of_int r / real_of_int b > 1 / 2" using assms by (simp add: field_simps)
    moreover have "roundHalfEven a b = q + 1" using 2 by (simp add: roundHalfEven_def q_def r_def Let_def)
    ultimately show ?thesis using ab rb by simp
  next
    case 3
    then have "real_of_int r / real_of_int b = 1 / 2" using assms by (simp add: field_simps)
    moreover have "roundHalfEven a b = q \<or> roundHalfEven a b = q + 1"
      using 3 by (simp add: roundHalfEven_def q_def r_def Let_def)
    ultimately show ?thesis using ab by auto
  qed
qed

lemma pow2_quotient:
  "(2::real) ^ nat t / 2 ^ nat (- t) = 2 powr real_of_int t"
proof (cases "0 \<le> t")
  case True
  then have "(2::real) powr real_of_int t = 2 ^ nat t"
    by (metis of_int_of_nat_eq nat_0_le powr_realpow zero_less_numeral of_int_of_nat_eq)
  with True show ?thesis by simp
next
  case False
  then have "(2::real) powr real_of_int (- t) = 2 ^ nat (- t)"
    by (metis of_int_of_nat_eq nat_0_le powr_realpow zero_less_numeral neg_0_le_iff_le linear)
  then have "(2::real) powr real_of_int t = 1 / 2 ^ nat (- t)"
    by (simp add: powr_minus field_simps)
  with False show ?thesis by simp
qed

lemma abs_scaled: "0 < P \<Longrightarrow> \<bar>x * P - y * P\<bar> = \<bar>x - y\<bar> * (P::real)"
  by (simp add: left_diff_distrib [symmetric] abs_mult)

lemma toBinary64_error:
  assumes a: "0 < a" and b: "0 < b"
  shows "\<bar>value64 (toBinary64 a b s) - real_of_int a / real_of_int b * 2 powr real_of_int s\<bar>
           \<le> real_of_int a / real_of_int b * 2 powr real_of_int s * 2 powr (- 53)"
    and "0 < significand (toBinary64 a b s)"
proof -
  define t where "t = 53 - bitlen a + bitlen b"
  define num den where "num = a * 2 ^ nat t" and "den = b * 2 ^ nat (- t)"
  define \<rho> where "\<rho> = real_of_int num / real_of_int den"
  define P where "P = 2 powr real_of_int (s - t)"
  have den: "0 < den" using b by (simp add: den_def)
  have P: "0 < P" by (simp add: P_def)
  have \<rho>: "\<rho> = real_of_int a / real_of_int b * 2 powr real_of_int t"
    unfolding \<rho>_def num_def den_def using pow2_quotient [of t] by (simp add: field_simps)
  have v: "real_of_int a / real_of_int b * 2 powr real_of_int s = \<rho> * P"
    unfolding \<rho> P_def by (simp add: powr_add [symmetric])
  have small: "(2::real) powr (- 53) = 1 / 2 ^ 53"
    using powr_realpow [of "2::real" 53] by (simp add: powr_minus field_simps)
  have la: "2 powr real_of_int (bitlen a - 1) \<le> real_of_int a"
  proof -
    have "bitlen a \<ge> 1" using a by (simp add: bitlen_alt_def)
    then have "(2::real) powr real_of_int (bitlen a - 1) = 2 ^ nat (bitlen a - 1)"
      by (metis of_int_of_nat_eq nat_0_le powr_realpow zero_less_numeral diff_ge_0_iff_ge)
    moreover have "(2::int) ^ nat (bitlen a - 1) \<le> a" using bitlen_bounds [OF a] by simp
    then have "(2::real) ^ nat (bitlen a - 1) \<le> real_of_int a"
      by (metis of_int_le_iff of_int_numeral of_int_power)
    ultimately show ?thesis by simp
  qed
  have lb: "real_of_int b < 2 powr real_of_int (bitlen b)"
  proof -
    have "(2::real) powr real_of_int (bitlen b) = 2 ^ nat (bitlen b)"
      by (metis of_int_of_nat_eq nat_0_le powr_realpow zero_less_numeral bitlen_nonneg)
    moreover have "b < (2::int) ^ nat (bitlen b)" using bitlen_bounds [OF b] by simp
    then have "real_of_int b < (2::real) ^ nat (bitlen b)"
      by (metis of_int_less_iff of_int_numeral of_int_power)
    ultimately show ?thesis by simp
  qed
  have low: "2 ^ 52 < \<rho>"
  proof -
    have "2 powr real_of_int (bitlen a - 1) / 2 powr real_of_int (bitlen b)
        < real_of_int a / real_of_int b"
      using la lb a b by (intro frac_less2) simp_all
    then have "2 powr real_of_int (bitlen a - 1 - bitlen b) < real_of_int a / real_of_int b"
      by (simp add: powr_diff)
    then have "2 powr real_of_int (bitlen a - 1 - bitlen b) * 2 powr real_of_int t
        < real_of_int a / real_of_int b * 2 powr real_of_int t"
      by (intro mult_strict_right_mono) simp_all
    then have "2 powr real_of_int (bitlen a - 1 - bitlen b) * 2 powr real_of_int t < \<rho>"
      unfolding \<rho> .
    moreover have "2 powr real_of_int (bitlen a - 1 - bitlen b) * 2 powr real_of_int t
        = (2::real) powr 52"
      unfolding t_def by (simp add: powr_add [symmetric])
    moreover have "(2::real) powr 52 = 2 ^ 52" using powr_realpow [of "2::real" 52] by simp
    ultimately show ?thesis by simp
  qed
  have a0: "a \<noteq> 0" using a by simp
  show "\<bar>value64 (toBinary64 a b s) - real_of_int a / real_of_int b * 2 powr real_of_int s\<bar>
           \<le> real_of_int a / real_of_int b * 2 powr real_of_int s * 2 powr (- 53)"
  proof (cases "num \<ge> 2 ^ 53 * den")
    case True
    define m where "m = roundHalfEven num (2 * den)"
    have tb: "toBinary64 a b s = \<lparr> significand = m, exponent = s - t + 1 \<rparr>"
      using True a0 by (simp add: toBinary64_def Let_def t_def num_def den_def m_def)
    have "real_of_int (2 ^ 53 * den) \<le> real_of_int num" using True by (simp only: of_int_le_iff)
    then have big: "2 ^ 53 \<le> \<rho>" unfolding \<rho>_def using den by (simp add: field_simps)
    have rh: "\<bar>real_of_int m - real_of_int num / real_of_int (2 * den)\<bar> \<le> 1 / 2"
      unfolding m_def using den by (intro roundHalfEven_error) simp
    have eq: "real_of_int num / real_of_int (2 * den) = \<rho> / 2"
      unfolding \<rho>_def by simp
    have h: "\<bar>real_of_int m - \<rho> / 2\<bar> \<le> 1 / 2" using rh unfolding eq .
    have e: "\<bar>2 * real_of_int m - \<rho>\<bar> \<le> 1" using h by linarith
    have val: "value64 (toBinary64 a b s) = 2 * real_of_int m * P"
      unfolding tb value64_def P_def
      using powr_add [of "2::real" "real_of_int (s - t)" 1] by (simp add: algebra_simps)
    have "\<bar>value64 (toBinary64 a b s) - \<rho> * P\<bar> = \<bar>2 * real_of_int m - \<rho>\<bar> * P"
      unfolding val using P by (rule abs_scaled)
    also have "\<dots> \<le> 1 * P" using e P by (intro mult_right_mono) simp_all
    also have "\<dots> \<le> \<rho> * P * (1 / 2 ^ 53)" using big P by (simp add: field_simps)
    finally show ?thesis unfolding v small .
  next
    case False
    define m where "m = roundHalfEven num den"
    have tb: "toBinary64 a b s = \<lparr> significand = m, exponent = s - t \<rparr>"
      using False a0 by (simp add: toBinary64_def Let_def t_def num_def den_def m_def)
    have e: "\<bar>real_of_int m - \<rho>\<bar> \<le> 1 / 2"
      unfolding m_def \<rho>_def using den by (intro roundHalfEven_error)
    have val: "value64 (toBinary64 a b s) = real_of_int m * P"
      unfolding tb value64_def P_def by simp
    have "\<bar>value64 (toBinary64 a b s) - \<rho> * P\<bar> = \<bar>real_of_int m - \<rho>\<bar> * P"
      unfolding val using P by (rule abs_scaled)
    also have "\<dots> \<le> 1 / 2 * P" using e P by (intro mult_right_mono) simp_all
    also have "\<dots> \<le> \<rho> * P * (1 / 2 ^ 53)" using low P by (simp add: field_simps)
    finally show ?thesis unfolding v small .
  qed
  show "0 < significand (toBinary64 a b s)"
  proof (cases "num \<ge> 2 ^ 53 * den")
    case True
    have "real_of_int (2 ^ 53 * den) \<le> real_of_int num" using True by (simp only: of_int_le_iff)
    then have big: "2 ^ 53 \<le> real_of_int num / real_of_int (2 * den) * 2"
      using den by (simp add: field_simps)
    have "\<bar>real_of_int (roundHalfEven num (2 * den)) - real_of_int num / real_of_int (2 * den)\<bar> \<le> 1 / 2"
      using den by (intro roundHalfEven_error) simp
    moreover have "(4::real) \<le> 2 ^ 53" by simp
    ultimately have "0 < real_of_int (roundHalfEven num (2 * den))" using big by linarith
    then show ?thesis using True a0
      by (simp add: toBinary64_def Let_def t_def num_def den_def)
  next
    case False
    have "\<bar>real_of_int (roundHalfEven num den) - \<rho>\<bar> \<le> 1 / 2"
      unfolding \<rho>_def using den by (intro roundHalfEven_error)
    moreover have "(4::real) \<le> 2 ^ 52" by simp
    ultimately have "0 < real_of_int (roundHalfEven num den)" using low by linarith
    then show ?thesis using False a0
      by (simp add: toBinary64_def Let_def t_def num_def den_def)
  qed
qed

lemma mathRound_floor: "mathRound x = \<lfloor>value64 x + 1 / 2\<rfloor>"
proof (cases "0 \<le> exponent x")
  case True
  then have "(2::real) powr real_of_int (exponent x) = 2 ^ nat (exponent x)"
    by (metis of_int_of_nat_eq nat_0_le powr_realpow zero_less_numeral)
  then have "value64 x = real_of_int (significand x * 2 ^ nat (exponent x))"
    by (simp add: value64_def)
  then have "\<lfloor>value64 x + 1 / 2\<rfloor> = significand x * 2 ^ nat (exponent x)"
    by (intro floor_unique) simp_all
  with True show ?thesis by (simp add: mathRound_def)
next
  case False
  define k where "k = nat (- exponent x)"
  have "(2::real) powr real_of_int (- exponent x) = 2 ^ k"
    unfolding k_def using False
    by (metis of_int_of_nat_eq nat_0_le powr_realpow zero_less_numeral neg_0_le_iff_le linear)
  then have "(2::real) powr real_of_int (exponent x) = 1 / 2 ^ k"
    by (simp add: powr_minus field_simps)
  then have "value64 x + 1 / 2 = real_of_int (2 * significand x + 2 ^ k) / real_of_int (2 ^ (k + 1))"
    by (simp add: value64_def field_simps)
  then have "\<lfloor>value64 x + 1 / 2\<rfloor> = (2 * significand x + 2 ^ k) div 2 ^ (k + 1)"
    by (simp only: floor_divide_of_int_eq)
  with False show ?thesis by (simp add: mathRound_def k_def)
qed

section \<open>Properties of the plan coverage check\<close>

text \<open>
  The percentage, computed in binary64 and rounded by \<open>Math.round\<close>, is an integer
  nearest to \<open>100 * C / R\<close> for all sizes an array can have.
\<close>

lemma percentage_nearest:
  assumes C: "C \<le> R" and R: "0 < R" "R < 2 ^ 32"
  shows "2 * \<bar>mathRound (times64 (divide64 (ofInt64 (int C)) (ofInt64 (int R))) (ofInt64 100)) * int R
              - 100 * int C\<bar> \<le> int R"
proof (cases "C = 0")
  case True
  then show ?thesis
    by (simp add: divide64_def times64_def ofInt64_def toBinary64_def mathRound_def)
next
  case False
  define q where "q = toBinary64 (int C) (int R) 0"
  define z where "z = toBinary64 (significand q * 100) 1 (exponent q)"
  define p where "p = mathRound z"
  define \<epsilon> :: real where "\<epsilon> = 2 powr (- 53)"
  define x0 :: real where "x0 = real C / real R"
  have pz: "mathRound (times64 (divide64 (ofInt64 (int C)) (ofInt64 (int R))) (ofInt64 100)) = p"
    by (simp add: p_def z_def q_def divide64_def times64_def ofInt64_def)
  have eps: "\<epsilon> = 1 / 2 ^ 53" "0 < \<epsilon>"
    unfolding \<epsilon>_def using powr_realpow [of "2::real" 53] by (simp_all add: powr_minus field_simps)
  have x0: "0 < x0" "x0 \<le> 1" using False C R by (simp_all add: x0_def)
  have cpos: "0 < int C" "0 < int R" using False R by simp_all
  have qe: "\<bar>value64 q - x0\<bar> \<le> x0 * \<epsilon>" and qs: "0 < significand q"
    using toBinary64_error [OF cpos, of 0] by (simp_all add: q_def x0_def \<epsilon>_def)
  have vq: "real_of_int (significand q * 100) / real_of_int 1 * 2 powr real_of_int (exponent q)
      = 100 * value64 q"
    by (simp add: value64_def)
  have m100: "0 < significand q * 100" using qs by simp
  have ze: "\<bar>value64 z - 100 * value64 q\<bar> \<le> 100 * value64 q * \<epsilon>"
    using toBinary64_error(1) [OF m100, of 1 "exponent q"] unfolding vq z_def \<epsilon>_def by simp
  have vqb: "value64 q \<le> x0 * (1 + \<epsilon>)" using qe by (simp add: abs_le_iff algebra_simps)
  have vqp: "0 \<le> value64 q" using qs by (simp add: value64_def)
  have "100 * value64 q * \<epsilon> \<le> 100 * (x0 * (1 + \<epsilon>)) * \<epsilon>"
    using vqb eps(2) by (intro mult_right_mono mult_left_mono) simp_all
  also have "\<dots> \<le> 100 * (1 * (1 + \<epsilon>)) * \<epsilon>"
    using x0 eps(2) by (intro mult_right_mono mult_left_mono) simp_all
  finally have b1: "100 * value64 q * \<epsilon> \<le> 100 * (1 + \<epsilon>) * \<epsilon>" by simp
  have "x0 * \<epsilon> \<le> 1 * \<epsilon>" using x0 eps(2) by (intro mult_right_mono) simp_all
  then have b2: "\<bar>value64 q - x0\<bar> \<le> \<epsilon>" using qe by simp
  have e1: "\<epsilon> \<le> 1" unfolding eps(1) by simp
  have "(1 + \<epsilon>) * \<epsilon> \<le> 2 * \<epsilon>" using e1 eps(2) by (intro mult_right_mono) simp_all
  then have "100 * ((1 + \<epsilon>) * \<epsilon>) \<le> 100 * (2 * \<epsilon>)" by (intro mult_left_mono) simp_all
  then have b3: "100 * (1 + \<epsilon>) * \<epsilon> \<le> 200 * \<epsilon>" by (simp only: mult.assoc)
  have total: "\<bar>value64 z - 100 * x0\<bar> \<le> 300 * \<epsilon>"
    using ze b1 b2 b3 by linarith
  have fl: "real_of_int p \<le> value64 z + 1 / 2" "value64 z + 1 / 2 < real_of_int p + 1"
    unfolding p_def mathRound_floor by linarith+
  have Rr: "real R < 2 ^ 32" using R(2) by (metis of_nat_less_iff of_nat_numeral of_nat_power)
  have "600 * \<epsilon> * real R < 600 * \<epsilon> * 2 ^ 32"
    using Rr eps(2) by (intro mult_strict_left_mono) simp_all
  also have "\<dots> < 1" unfolding eps(1) by simp
  finally have tiny: "600 * \<epsilon> * real R < 1" .
  have Rpos: "0 < real R" using R by simp
  have xR: "x0 * real R = real C" using R by (simp add: x0_def)
  have up: "2 * (real_of_int p - 100 * x0) * real R < real R + 1"
  proof -
    have "real_of_int p - 100 * x0 \<le> 1 / 2 + 300 * \<epsilon>" using fl total by linarith
    then have "(real_of_int p - 100 * x0) * real R \<le> (1 / 2 + 300 * \<epsilon>) * real R"
      using Rpos by (intro mult_right_mono) simp_all
    then show ?thesis using tiny by (simp add: algebra_simps)
  qed
  have dn: "2 * (100 * x0 - real_of_int p) * real R < real R + 1"
  proof -
    have "100 * x0 - real_of_int p \<le> 1 / 2 + 300 * \<epsilon>" using fl total by linarith
    then have "(100 * x0 - real_of_int p) * real R \<le> (1 / 2 + 300 * \<epsilon>) * real R"
      using Rpos by (intro mult_right_mono) simp_all
    then show ?thesis using tiny by (simp add: algebra_simps)
  qed
  have "real_of_int (2 * (p * int R - 100 * int C)) = 2 * (real_of_int p - 100 * x0) * real R"
    using xR by (simp add: algebra_simps)
  with up have "real_of_int (2 * (p * int R - 100 * int C)) < real_of_int (int R + 1)" by simp
  then have u: "2 * (p * int R - 100 * int C) < int R + 1" by (simp only: of_int_less_iff)
  have "real_of_int (2 * (100 * int C - p * int R)) = 2 * (100 * x0 - real_of_int p) * real R"
    using xR by (simp add: algebra_simps)
  with dn have "real_of_int (2 * (100 * int C - p * int R)) < real_of_int (int R + 1)" by simp
  then have d: "2 * (100 * int C - p * int R) < int R + 1" by (simp only: of_int_less_iff)
  define w where "w = p * int R - 100 * int C"
  have "2 * w < int R + 1" and "2 * (- w) < int R + 1"
    using u d by (simp_all add: w_def)
  then have "2 * \<bar>w\<bar> \<le> int R" by linarith
  then show ?thesis unfolding pz w_def .
qed

text \<open>
  The percentage at an exact half: 23 of 40 is 57.5 percent, the binary64 quotient
  times 100 is 57.49999999999999, and the result is 57.
\<close>

lemma plan_coverage_23_of_40:
  "pc_percentage (planCoverage (numbered_requirements 40) (plan_covering 23)) = 57 \<and>
   length (rd_explicit (numbered_requirements 40) @ rd_implicit (numbered_requirements 40)) = 40 \<and>
   card (set (coveredReqs (plan_covering 23))) = 23"
  by code_simp

text \<open>
  The computation of \<open>validatePlanCoverage\<close> on two parsed documents. R is the length of
  the requirement list and C the size of a set: when one id occurs twice among the
  requirements (here once as explicit and once as implicit) and the plan covers it, R
  is 2 and C is 1, no gap is found and \<open>isComplete\<close> is true, with a percentage of 50.
  And with 23 of 40 distinct requirements covered the percentage is 57, where
  \<open>100 * 23 / 40\<close> is 57.5 and rounds to 58.
\<close>

lemma planCoverage_duplicates_and_rounding:
  "length (rd_explicit dup_requirements @ rd_implicit dup_requirements) = 2 \<and>
   card (set (coveredReqs dup_plan)) = 1 \<and>
   set (coveredReqs dup_plan)
     \<subseteq> set (map req_id (rd_explicit dup_requirements @ rd_implicit dup_requirements)) \<and>
   pc_isComplete (planCoverage dup_requirements dup_plan) \<and>
   pc_percentage (planCoverage dup_requirements dup_plan) = 50 \<and>
   pc_percentage (planCoverage (numbered_requirements 40) (plan_covering 23)) = 57 \<and>
   \<lfloor>100 * 23 / 40 + 1 / (2::real)\<rfloor> = 58"
proof -
  have "length (rd_explicit dup_requirements @ rd_implicit dup_requirements) = 2 \<and>
   card (set (coveredReqs dup_plan)) = 1 \<and>
   set (coveredReqs dup_plan)
     \<subseteq> set (map req_id (rd_explicit dup_requirements @ rd_implicit dup_requirements)) \<and>
   pc_isComplete (planCoverage dup_requirements dup_plan) \<and>
   pc_percentage (planCoverage dup_requirements dup_plan) = 50"
    by code_simp
  moreover have "\<lfloor>100 * 23 / 40 + 1 / (2::real)\<rfloor> = 58" by simp
  ultimately show ?thesis using plan_coverage_23_of_40 by blast
qed

lemma plan_coverage_no_requirements:
  assumes "rd_explicit requirements @ rd_implicit requirements = []"
  shows "planCoverage requirements plan = \<lparr> pc_isComplete = True, pc_percentage = 100, pc_gaps = [] \<rparr>"
  using assms by (simp add: planCoverage_def Let_def ofInt64_def mathRound_def)

lemma planCoverage_gaps:
  "pc_gaps (planCoverage requirements plan) =
     filter (\<lambda>i. i \<notin> set (coveredReqs plan))
       (map req_id (rd_explicit requirements @ rd_implicit requirements))"
  by (simp add: planCoverage_def Let_def filter_map comp_def)

lemma planCoverage_complete_iff:
  assumes d: "distinct (map req_id (rd_explicit requirements @ rd_implicit requirements))"
    and sub: "set (coveredReqs plan) \<subseteq> set (map req_id (rd_explicit requirements @ rd_implicit requirements))"
  shows "pc_isComplete (planCoverage requirements plan) \<longleftrightarrow>
           card (set (coveredReqs plan)) = length (rd_explicit requirements @ rd_implicit requirements)"
    and "card (set (coveredReqs plan)) \<le> length (rd_explicit requirements @ rd_implicit requirements)"
proof -
  let ?ids = "map req_id (rd_explicit requirements @ rd_implicit requirements)"
  have len: "card (set ?ids) = length (rd_explicit requirements @ rd_implicit requirements)"
    using distinct_card [OF d] by simp
  have "pc_isComplete (planCoverage requirements plan) \<longleftrightarrow> set ?ids \<subseteq> set (coveredReqs plan)"
    by (auto simp add: planCoverage_def Let_def filter_empty_conv)
  also have "\<dots> \<longleftrightarrow> set (coveredReqs plan) = set ?ids" using sub by auto
  also have "\<dots> \<longleftrightarrow> card (set (coveredReqs plan)) = card (set ?ids)"
    using card_subset_eq [OF _ sub] by auto
  finally show "pc_isComplete (planCoverage requirements plan) \<longleftrightarrow>
           card (set (coveredReqs plan)) = length (rd_explicit requirements @ rd_implicit requirements)"
    using len by simp
  show "card (set (coveredReqs plan)) \<le> length (rd_explicit requirements @ rd_implicit requirements)"
    using card_mono [OF _ sub] len by simp
qed

text \<open>
  On two parsed documents with R >= 1 requirements (fewer than 2^32) of pairwise
  distinct ids and a plan that references C distinct ids, all of them ids of those
  requirements, the computation gives \<open>isComplete == (C == R)\<close>, the ids of the uncovered
  requirements in document order, and an integer nearest to \<open>100 * C / R\<close>.
\<close>

lemma planCoverage_distinct_ids:
  assumes "distinct (map req_id (rd_explicit requirements @ rd_implicit requirements))"
    and "set (coveredReqs plan) \<subseteq> set (map req_id (rd_explicit requirements @ rd_implicit requirements))"
    and "0 < length (rd_explicit requirements @ rd_implicit requirements)"
    and "length (rd_explicit requirements @ rd_implicit requirements) < 2 ^ 32"
  shows "(pc_isComplete (planCoverage requirements plan) \<longleftrightarrow>
            card (set (coveredReqs plan)) = length (rd_explicit requirements @ rd_implicit requirements)) \<and>
         pc_gaps (planCoverage requirements plan) =
           filter (\<lambda>i. i \<notin> set (coveredReqs plan))
             (map req_id (rd_explicit requirements @ rd_implicit requirements)) \<and>
         2 * \<bar>pc_percentage (planCoverage requirements plan)
                 * int (length (rd_explicit requirements @ rd_implicit requirements))
               - 100 * int (card (set (coveredReqs plan)))\<bar>
           \<le> int (length (rd_explicit requirements @ rd_implicit requirements))"
proof -
  let ?R = "length (rd_explicit requirements @ rd_implicit requirements)"
  let ?C = "card (set (coveredReqs plan))"
  note c = planCoverage_complete_iff [OF assms(1,2)]
  have p: "pc_percentage (planCoverage requirements plan) =
      mathRound (times64 (divide64 (ofInt64 (int ?C)) (ofInt64 (int ?R))) (ofInt64 100))"
    using assms(3) by (simp add: planCoverage_def Let_def)
  have "2 * \<bar>pc_percentage (planCoverage requirements plan) * int ?R - 100 * int ?C\<bar> \<le> int ?R"
    unfolding p using c(2) assms(3,4) by (rule percentage_nearest)
  with c(1) planCoverage_gaps show ?thesis by blast
qed






section \<open>Properties of the orchestrator\<close>



text \<open>
  With a table that allows the transition to \<open>failed\<close> from every phase, \<open>run\<close> never
  rejects, and its result, successful or not, carries the sandbox files and the token
  total of the workspace it ends with. Where the table does not allow the transition,
  the handler itself throws and \<open>run\<close> rejects.
\<close>

lemma run_always_returns:
  assumes "\<forall>p. FAILED \<in> set (table p)"
  shows "\<exists>r. fst (run table agents parseRequirements parsePlan options startTime endTime s0) = Inr r \<and>
           gr_files r = ws_files (workspace (snd (run table agents parseRequirements parsePlan
             options startTime endTime s0))) \<and>
           gr_tokensUsed r = ws_totalTokens (workspace (snd (run table agents parseRequirements
             parsePlan options startTime endTime s0)))"
  using assms
  by (auto simp add: run_def transition_def emit_def split: prod.splits sum.splits)

lemma run_rejects_without_failed_transition:
  assumes "generation table agents parseRequirements parsePlan options (emit GENERATION_STARTED s0)
             = (Inl ex, s)"
    and "FAILED \<notin> set (table (currentPhase s))"
  shows "run table agents parseRequirements parsePlan options startTime endTime s0 =
           (Inl (Error ''Invalid phase transition''), s)"
  using assms by (simp add: run_def transition_def)

end
